theory Spec2Isabelle
  imports Complex_Main
begin

section \<open>The PSD service: addressing, extraction, validation, compositing\<close>

text \<open>
  \<^verbatim>\<open>src/services/psdService.ts\<close> holds two listings of the service, one after the other.
  Both define \<^verbatim>\<open>extractTemplateMetadata\<close>, \<^verbatim>\<open>mapLayersToContainers\<close>,
  \<^verbatim>\<open>getCleanLayerTree\<close>, \<^verbatim>\<open>findLayerByPath\<close> and \<^verbatim>\<open>compositePayloadToCanvas\<close>.
  The first listing (lines 1-545) is embedded under the source's names with the suffix
  \<open>A\<close>, the second (lines 545-934) with the suffix \<open>B\<close>.

  Conventions of the embedding.
  \<^item> A JavaScript string is a \<open>string\<close>: a list of 8-bit code units. Strings with
    code units above 255 are outside the model.
  \<^item> Pixel coordinates of the native layer tree are \<open>int\<close>; the width and height of a
    document, the numbers of a payload and all quotients are \<open>real\<close>. Arithmetic is
    exact: the rounding of IEEE doubles and the value \<^verbatim>\<open>NaN\<close> of a field are not
    modelled.
  \<^item> An optional property (\<^verbatim>\<open>name?: string\<close>) is an \<open>option\<close>; \<open>None\<close> is
    \<^verbatim>\<open>undefined\<close>.
  \<^item> A thrown exception is \<open>Inl\<close> of a \<open>js_error\<close>; a normal return is \<open>Inr\<close>.
\<close>

subsection \<open>Strings and numbers of the host language\<close>

datatype js_error = TypeError | InvalidStateError

text \<open>A number as the path resolver sees it: not-a-number, a finite value, or an infinity.\<close>

datatype jsnum = NaN | Num rat | PosInfinity | NegInfinity

definition is_digit :: "char \<Rightarrow> bool" where
  "is_digit c = (48 \<le> (of_char c :: nat) \<and> (of_char c :: nat) \<le> 57)"

definition digit_val :: "char \<Rightarrow> nat" where
  "digit_val c = (of_char c :: nat) - 48"

definition digit_char :: "nat \<Rightarrow> char" where
  "digit_char d = char_of (48 + d)"

text \<open>White space and line terminators (\<^verbatim>\<open>\s\<close>, and what \<^verbatim>\<open>Number\<close> and \<^verbatim>\<open>parseInt\<close> trim):
  TAB, LF, VT, FF, CR, SP, NBSP.\<close>

definition is_ws :: "char \<Rightarrow> bool" where
  "is_ws c = ((of_char c :: nat) \<in> set [9, 10, 11, 12, 13, 32, 160])"

text \<open>The template literal \<^verbatim>\<open>`${index}`\<close> of an array index: its decimal digits.\<close>

function toString :: "nat \<Rightarrow> string" where
  "toString n = (if n < 10 then [digit_char n] else toString (n div 10) @ [digit_char (n mod 10)])"
  by pat_completeness auto
termination
  by (relation "measure id") auto

declare toString.simps [simp del]

definition dec_value :: "string \<Rightarrow> nat" where
  "dec_value ds = foldl (\<lambda>a c. 10 * a + digit_val c) 0 ds"

text \<open>\<^verbatim>\<open>s.split(sep)\<close> for a one-character separator: never the empty list.\<close>

fun split_on :: "char \<Rightarrow> string \<Rightarrow> string list" where
  "split_on sep [] = [[]]"
| "split_on sep (c # cs) =
     (if c = sep then [] # split_on sep cs
      else (c # hd (split_on sep cs)) # tl (split_on sep cs))"

definition trim :: "string \<Rightarrow> string" where
  "trim s = rev (dropWhile is_ws (rev (dropWhile is_ws s)))"

text \<open>Digits of a radix up to 16, for the literals \<^verbatim>\<open>0x..\<close>, \<^verbatim>\<open>0o..\<close>, \<^verbatim>\<open>0b..\<close>.\<close>

definition radix_digit :: "char \<Rightarrow> nat option" where
  "radix_digit c =
     (let k = (of_char c :: nat) in
      if 48 \<le> k \<and> k \<le> 57 then Some (k - 48)
      else if 97 \<le> k \<and> k \<le> 102 then Some (k - 87)
      else if 65 \<le> k \<and> k \<le> 70 then Some (k - 55)
      else None)"

fun radix_value :: "nat \<Rightarrow> nat \<Rightarrow> string \<Rightarrow> nat option" where
  "radix_value r acc [] = Some acc"
| "radix_value r acc (c # cs) =
     (case radix_digit c of
        None \<Rightarrow> None
      | Some d \<Rightarrow> if d < r then radix_value r (r * acc + d) cs else None)"

definition nonDecimalIntegerLiteral :: "string \<Rightarrow> nat option" where
  "nonDecimalIntegerLiteral s =
     (case s of
        z # p # ds \<Rightarrow>
          if z = CHR ''0'' \<and> ds \<noteq> [] then
            (if p = CHR ''x'' \<or> p = CHR ''X'' then radix_value 16 0 ds
             else if p = CHR ''o'' \<or> p = CHR ''O'' then radix_value 8 0 ds
             else if p = CHR ''b'' \<or> p = CHR ''B'' then radix_value 2 0 ds
             else None)
          else None
      | _ \<Rightarrow> None)"

text \<open>A signed integer of decimal digits (the exponent part of a decimal literal).\<close>

definition signedInteger :: "string \<Rightarrow> int option" where
  "signedInteger s =
     (case s of
        [] \<Rightarrow> None
      | c # cs \<Rightarrow>
          if c = CHR ''-'' then (if cs \<noteq> [] \<and> list_all is_digit cs then Some (- int (dec_value cs)) else None)
          else if c = CHR ''+'' then (if cs \<noteq> [] \<and> list_all is_digit cs then Some (int (dec_value cs)) else None)
          else if list_all is_digit s then Some (int (dec_value s)) else None)"

definition is_exp_char :: "char \<Rightarrow> bool" where
  "is_exp_char c = (c = CHR ''e'' \<or> c = CHR ''E'')"

text \<open>The mantissa \<^verbatim>\<open>digits\<close>, \<^verbatim>\<open>digits.digits\<close>, \<^verbatim>\<open>digits.\<close> or \<^verbatim>\<open>.digits\<close>: its digits read as
  one integer, and the number of digits after the point.\<close>

definition mantissa :: "string \<Rightarrow> (nat \<times> nat) option" where
  "mantissa m =
     (let ip = takeWhile is_digit m; r = dropWhile is_digit m in
      case r of
        [] \<Rightarrow> if ip = [] then None else Some (dec_value ip, 0)
      | c # fp \<Rightarrow>
          if c = CHR ''.'' \<and> list_all is_digit fp \<and> (ip \<noteq> [] \<or> fp \<noteq> [])
          then Some (dec_value (ip @ fp), length fp) else None)"

definition scale10 :: "nat \<Rightarrow> int \<Rightarrow> rat" where
  "scale10 m e = (if 0 \<le> e then of_nat m * 10 ^ nat e else of_nat m / 10 ^ nat (- e))"

definition strUnsignedDecimalLiteral :: "string \<Rightarrow> rat option" where
  "strUnsignedDecimalLiteral t =
     (let m = takeWhile (\<lambda>c. \<not> is_exp_char c) t; r = dropWhile (\<lambda>c. \<not> is_exp_char c) t in
      case mantissa m of
        None \<Rightarrow> None
      | Some (v, k) \<Rightarrow>
          (case r of
             [] \<Rightarrow> Some (scale10 v (- int k))
           | _ # ex \<Rightarrow>
               (case signedInteger ex of
                  None \<Rightarrow> None
                | Some e \<Rightarrow> Some (scale10 v (e - int k)))))"

definition strDecimalLiteral :: "string \<Rightarrow> jsnum" where
  "strDecimalLiteral t =
     (let neg = (t \<noteq> [] \<and> hd t = CHR ''-'');
          u = (if t \<noteq> [] \<and> (hd t = CHR ''-'' \<or> hd t = CHR ''+'') then tl t else t) in
      if u = ''Infinity'' then (if neg then NegInfinity else PosInfinity)
      else case strUnsignedDecimalLiteral u of
             None \<Rightarrow> NaN
           | Some v \<Rightarrow> Num (if neg then - v else v))"

text \<open>\<^verbatim>\<open>Number(s)\<close> on a string: the grammar \<^verbatim>\<open>StringNumericLiteral\<close>. The value of a
  literal is exact here, where the host language rounds it to a double: the two agree on
  whether a string is a literal at all (\<^verbatim>\<open>NaN\<close> or not) and on every string of decimal
  digits below \<open>2 ^ 53\<close>, and may differ elsewhere (\<^verbatim>\<open>1e-400\<close> is 0 for the host
  language). The theorems below apply \<open>Number\<close> to strings of digits and to strings that
  are no literal.\<close>

definition Number :: "string \<Rightarrow> jsnum" where
  "Number s =
     (let t = trim s in
      if t = [] then Num 0
      else case nonDecimalIntegerLiteral t of
             Some v \<Rightarrow> Num (of_nat v)
           | None \<Rightarrow> strDecimalLiteral t)"

text \<open>\<^verbatim>\<open>parseInt(s, 10)\<close>: leading white space, a sign, then the longest run of decimal
  digits; \<^verbatim>\<open>NaN\<close> when that run is empty.\<close>

definition parseInt10 :: "string \<Rightarrow> jsnum" where
  "parseInt10 s =
     (let t = dropWhile is_ws s;
          neg = (t \<noteq> [] \<and> hd t = CHR ''-'');
          u = (if t \<noteq> [] \<and> (hd t = CHR ''-'' \<or> hd t = CHR ''+'') then tl t else t);
          z = takeWhile is_digit u in
      if z = [] then NaN
      else Num (if neg then - of_nat (dec_value z) else of_nat (dec_value z)))"

text \<open>\<^verbatim>\<open>xs[k]\<close> for a number \<open>k\<close>: the element when \<open>k\<close> is an integer within range,
  \<^verbatim>\<open>undefined\<close> otherwise (also for \<^verbatim>\<open>NaN\<close>, a fraction, a negative number, an infinity).\<close>

fun js_index :: "'a list \<Rightarrow> jsnum \<Rightarrow> 'a option" where
  "js_index xs (Num q) =
     (if of_int \<lfloor>q\<rfloor> = q \<and> 0 \<le> q \<and> nat \<lfloor>q\<rfloor> < length xs then Some (xs ! nat \<lfloor>q\<rfloor>) else None)"
| "js_index xs NaN = None"
| "js_index xs PosInfinity = None"
| "js_index xs NegInfinity = None"

text \<open>\<^verbatim>\<open>k >= n\<close> for a number \<open>k\<close> and an array length \<open>n\<close>: false for \<^verbatim>\<open>NaN\<close>.\<close>

fun js_ge :: "jsnum \<Rightarrow> nat \<Rightarrow> bool" where
  "js_ge (Num q) n = (of_nat n \<le> q)"
| "js_ge NaN n = False"
| "js_ge PosInfinity n = True"
| "js_ge NegInfinity n = False"

subsection \<open>The native layer tree (the decoder's \<^verbatim>\<open>Layer\<close> and \<^verbatim>\<open>Psd\<close>)\<close>

text \<open>
  Modelled from the spec: the declarations of \<^verbatim>\<open>Layer\<close> and \<^verbatim>\<open>Psd\<close> belong to the decoder
  package \<^verbatim>\<open>ag-psd\<close> and are not among the sources. The fields are the ones the service
  reads; their types follow section 6 of the spec (name, hidden flag, opacity as an
  integer, top, left, bottom and right as pixel integers that may be undefined, an
  optional child list, an optional pixel surface). The width and height of the document
  are numbers that may be undefined; nothing restricts them to positive integers.

  A pixel source (\<^verbatim>\<open>HTMLCanvasElement\<close>) is its width and height.
\<close>

datatype Canvas = Canvas (cv_width: nat) (cv_height: nat)

datatype Layer = Layer
  (l_name: "string option")
  (l_top: "int option")
  (l_left: "int option")
  (l_bottom: "int option")
  (l_right: "int option")
  (l_hidden: "bool option")
  (l_opacity: "int option")
  (l_canvas: "Canvas option")
  (l_children: "Layer list option")

datatype Psd = Psd
  (psd_width: "real option")
  (psd_height: "real option")
  (psd_children: "Layer list option")

text \<open>
  Modelled from the spec: the declaration of \<^verbatim>\<open>SerializableLayer\<close> is in \<^verbatim>\<open>../types\<close>, which
  is not among the sources. The fields are the ones the serializers write (section 3 of
  the spec). A box \<^verbatim>\<open>{x, y, w, h}\<close> is a \<open>rect\<close>.
\<close>

datatype 'a rect = Rect (rect_x: 'a) (rect_y: 'a) (rect_w: 'a) (rect_h: 'a)

datatype LayerKind = KLayer | KGroup | KGenerative

datatype SerializableLayer = SerializableLayer
  (sl_id: string)
  (sl_name: string)
  (sl_type: LayerKind)
  (sl_isVisible: bool)
  (sl_opacity: real)
  (sl_coords: "int rect")
  (sl_children: "SerializableLayer list option")

text \<open>\<^verbatim>\<open>v ?? 0\<close> and \<^verbatim>\<open>v || 0\<close> on an optional integer agree: both give 0 for
  \<^verbatim>\<open>undefined\<close>, and \<^verbatim>\<open>0 || 0\<close> is 0.\<close>

definition orZero :: "int option \<Rightarrow> int" where
  "orZero v = (case v of None \<Rightarrow> 0 | Some k \<Rightarrow> k)"

text \<open>\<^verbatim>\<open>s || d\<close> on an optional string: \<open>d\<close> for \<^verbatim>\<open>undefined\<close> and for the empty string.\<close>

definition orElse :: "string option \<Rightarrow> string \<Rightarrow> string" where
  "orElse s d = (case s of None \<Rightarrow> d | Some t \<Rightarrow> if t = [] then d else t)"

text \<open>Property access \<^verbatim>\<open>v.children\<close> on a value that may be \<^verbatim>\<open>undefined\<close> or \<^verbatim>\<open>null\<close>:
  a \<^verbatim>\<open>TypeError\<close> there.\<close>

definition get_children :: "Layer option \<Rightarrow> js_error + Layer list option" where
  "get_children v = (case v of None \<Rightarrow> Inl TypeError | Some l \<Rightarrow> Inr (l_children l))"

subsection \<open>Layer tree serializer, first listing (lines 320-361)\<close>

text \<open>\<^verbatim>\<open>path ? `${path}.${index}` : `${index}`\<close>\<close>

definition currentPathA :: "string \<Rightarrow> nat \<Rightarrow> string" where
  "currentPathA path index = (if path \<noteq> [] then path @ ''.'' @ toString index else toString index)"

text \<open>The object literal \<^verbatim>\<open>node\<close>, given the value of its \<^verbatim>\<open>children\<close> property.\<close>

definition nodeA :: "Layer \<Rightarrow> nat \<Rightarrow> string \<Rightarrow> SerializableLayer list option \<Rightarrow> SerializableLayer" where
  "nodeA child index currentPath kids =
     (let tp = orZero (l_top child);
          lf = orZero (l_left child);
          bt = orZero (l_bottom child);
          rt = orZero (l_right child);
          width = rt - lf;
          height = bt - tp
      in SerializableLayer
           currentPath
           (orElse (l_name child) (''Layer '' @ toString index))
           (if l_children child = None then KLayer else KGroup)
           (l_hidden child \<noteq> Some True)
           (real_of_int (case l_opacity child of None \<Rightarrow> 255 | Some k \<Rightarrow> k) / 255)
           (Rect lf tp width height)
           kids)"

text \<open>The \<^verbatim>\<open>forEach\<close> over \<^verbatim>\<open>layers\<close>, from position \<open>index\<close> on; a template group is
  skipped, every other child is pushed in order.\<close>

fun forEachA :: "nat \<Rightarrow> Layer list \<Rightarrow> string \<Rightarrow> SerializableLayer list" where
  "forEachA index [] path = []"
| "forEachA index (Layer name tp lf bt rt hid opa cnv kids # rest) path =
     (if name = Some ''!!TEMPLATE'' then forEachA (Suc index) rest path
      else
        nodeA (Layer name tp lf bt rt hid opa cnv kids) index
              (currentPathA path index)
              (case kids of
                 None \<Rightarrow> None
               | Some cs \<Rightarrow> Some (forEachA 0 cs (currentPathA path index)))
        # forEachA (Suc index) rest path)"

definition getCleanLayerTreeA :: "Layer list \<Rightarrow> string \<Rightarrow> SerializableLayer list" where
  "getCleanLayerTreeA layers path = forEachA 0 layers path"

subsection \<open>Layer tree serializer, second listing (lines 803-826)\<close>

definition idB :: "string \<Rightarrow> nat \<Rightarrow> string" where
  "idB parentId index = parentId @ ''-'' @ toString index"

definition nodeB :: "Layer \<Rightarrow> nat \<Rightarrow> string \<Rightarrow> SerializableLayer list option \<Rightarrow> SerializableLayer" where
  "nodeB layer index ident kids =
     SerializableLayer
       ident
       (orElse (l_name layer) (''Layer '' @ toString index))
       (if l_children layer = None then KLayer else KGroup)
       (l_hidden layer \<noteq> Some True)
       (case l_opacity layer of None \<Rightarrow> 1 | Some k \<Rightarrow> real_of_int k / 255)
       (Rect (orZero (l_left layer)) (orZero (l_top layer))
             (orZero (l_right layer) - orZero (l_left layer))
             (orZero (l_bottom layer) - orZero (l_top layer)))
       kids"

text \<open>\<^verbatim>\<open>layers.map((layer, index) => ...)\<close>, from position \<open>index\<close> on: no child is
  skipped.\<close>

fun mapB :: "nat \<Rightarrow> Layer list \<Rightarrow> string \<Rightarrow> SerializableLayer list" where
  "mapB index [] parentId = []"
| "mapB index (Layer name tp lf bt rt hid opa cnv kids # rest) parentId =
     nodeB (Layer name tp lf bt rt hid opa cnv kids) index
           (idB parentId index)
           (case kids of
              None \<Rightarrow> None
            | Some cs \<Rightarrow> Some (mapB 0 cs (idB parentId index)))
     # mapB (Suc index) rest parentId"

definition getCleanLayerTreeB :: "Layer list \<Rightarrow> string \<Rightarrow> SerializableLayer list" where
  "getCleanLayerTreeB layers parentId = mapB 0 layers parentId"

subsection \<open>Path resolver, first listing (lines 371-387)\<close>

text \<open>The \<^verbatim>\<open>for (const index of indices)\<close> loop with its two variables
  \<^verbatim>\<open>currentLayers\<close> and \<^verbatim>\<open>targetLayer\<close>; after the loop, \<^verbatim>\<open>targetLayer || null\<close>.\<close>

fun walkA :: "jsnum list \<Rightarrow> Layer list option \<Rightarrow> Layer option \<Rightarrow> js_error + Layer option" where
  "walkA [] currentLayers targetLayer = Inr targetLayer"
| "walkA (index # rest) currentLayers targetLayer =
     (case currentLayers of
        None \<Rightarrow> Inr None
      | Some ls \<Rightarrow>
          if js_index ls index = None then Inr None
          else (case get_children (js_index ls index) of
                  Inl e \<Rightarrow> Inl e
                | Inr cs \<Rightarrow> walkA rest cs (js_index ls index)))"

definition findLayerByPathA :: "Psd \<Rightarrow> string \<Rightarrow> js_error + Layer option" where
  "findLayerByPathA psd pathId =
     (if pathId = [] then Inr None
      else walkA (map Number (split_on CHR ''.'' pathId)) (psd_children psd) None)"

subsection \<open>Path resolver, second listing (lines 841-856)\<close>

text \<open>The guard is \<^verbatim>\<open>!currentLayers || idx >= currentLayers.length\<close>; the element read
  \<^verbatim>\<open>currentLayers[idx]\<close> may be \<^verbatim>\<open>undefined\<close>, and \<^verbatim>\<open>currentLayer.children\<close> throws then.\<close>

fun walkB :: "jsnum list \<Rightarrow> Layer list option \<Rightarrow> Layer option \<Rightarrow> js_error + Layer option" where
  "walkB [] currentLayers currentLayer = Inr currentLayer"
| "walkB (idx # rest) currentLayers currentLayer =
     (case currentLayers of
        None \<Rightarrow> Inr None
      | Some ls \<Rightarrow>
          if js_ge idx (length ls) then Inr None
          else (case get_children (js_index ls idx) of
                  Inl e \<Rightarrow> Inl e
                | Inr cs \<Rightarrow> walkB rest cs (js_index ls idx)))"

definition findLayerByPathB :: "Psd \<Rightarrow> string \<Rightarrow> js_error + Layer option" where
  "findLayerByPathB psd layerId =
     (if layerId = [] then Inr None
      else walkB (map parseInt10 (drop 1 (split_on CHR ''-'' layerId))) (psd_children psd) None)"

subsection \<open>Positions in the two trees\<close>

text \<open>The native node at a path of child indices, and every node of a serialized tree.\<close>

fun nodeAt :: "Layer list \<Rightarrow> nat list \<Rightarrow> Layer option" where
  "nodeAt ls [] = None"
| "nodeAt ls (i # rest) =
     (if i < length ls then
        (if rest = [] then Some (ls ! i)
         else case l_children (ls ! i) of None \<Rightarrow> None | Some cs \<Rightarrow> nodeAt cs rest)
      else None)"

fun sl_nodes :: "SerializableLayer list \<Rightarrow> SerializableLayer list" where
  "sl_nodes [] = []"
| "sl_nodes (SerializableLayer i n t v a c kids # rest) =
     SerializableLayer i n t v a c kids
     # (case kids of None \<Rightarrow> [] | Some cs \<Rightarrow> sl_nodes cs) @ sl_nodes rest"

subsection \<open>Path ids as the two serializers build them\<close>

definition pathIdA :: "string \<Rightarrow> nat list \<Rightarrow> string" where
  "pathIdA path p = foldl currentPathA path p"

definition pathIdB :: "string \<Rightarrow> nat list \<Rightarrow> string" where
  "pathIdB parentId p = foldl idB parentId p"

text \<open>What one serialized node is, given the native node it was made from.\<close>

definition derivedA :: "SerializableLayer \<Rightarrow> Layer \<Rightarrow> nat \<Rightarrow> bool" where
  "derivedA n l i =
     (n = nodeA l i (sl_id n) (map_option (\<lambda>cs. getCleanLayerTreeA cs (sl_id n)) (l_children l)))"

definition derivedB :: "SerializableLayer \<Rightarrow> Layer \<Rightarrow> nat \<Rightarrow> bool" where
  "derivedB n l i =
     (n = nodeB l i (sl_id n) (map_option (\<lambda>cs. getCleanLayerTreeB cs (sl_id n)) (l_children l)))"

subsection \<open>Template extractor (lines 180-232 and 724-779)\<close>

text \<open>
  Modelled from the spec: the declarations of \<^verbatim>\<open>ContainerDefinition\<close> and
  \<^verbatim>\<open>TemplateMetadata\<close> are in \<^verbatim>\<open>../types\<close>, which is not among the sources. The fields are
  the ones the extractors write (section 3 of the spec).
\<close>

datatype ContainerDefinition = ContainerDefinition
  (c_id: string)
  (c_name: string)
  (c_originalName: string)
  (c_bounds: "int rect")
  (c_normalized: "real rect")

datatype TemplateMetadata = TemplateMetadata
  (canvas_width: real)
  (canvas_height: real)
  (containers: "ContainerDefinition list")

text \<open>\<^verbatim>\<open>psd.width || 1\<close>: 1 for \<^verbatim>\<open>undefined\<close> and for 0, every other number as it is
  (also a negative one and a fraction).\<close>

definition orOne :: "real option \<Rightarrow> real" where
  "orOne v = (case v of None \<Rightarrow> 1 | Some k \<Rightarrow> if k = 0 then 1 else k)"

text \<open>\<^verbatim>\<open>rawName.replace(/^!!/, '')\<close>\<close>

definition stripBangs :: "string \<Rightarrow> string" where
  "stripBangs s =
     (case s of
        a # b # r \<Rightarrow> if a = CHR ''!'' \<and> b = CHR ''!'' then r else s
      | _ \<Rightarrow> s)"

text \<open>\<^verbatim>\<open>cleanName.replace(/\s+/g, '_')\<close>: every run of white space becomes one underscore.\<close>

function underscored :: "string \<Rightarrow> string" where
  "underscored [] = []"
| "underscored (c # cs) =
     (if is_ws c then CHR ''_'' # underscored (dropWhile is_ws cs) else c # underscored cs)"
  by pat_completeness auto
termination
  by (relation "measure length") (auto simp: less_Suc_eq_le length_dropWhile_le)

text \<open>\<^verbatim>\<open>psd.children?.find(child => child.name === '!!TEMPLATE')\<close>\<close>

definition templateGroup :: "Psd \<Rightarrow> Layer option" where
  "templateGroup psd =
     (case psd_children psd of
        None \<Rightarrow> None
      | Some cs \<Rightarrow> find (\<lambda>child. l_name child = Some ''!!TEMPLATE'') cs)"

text \<open>The children the extractor walks: those of the template group, when it exists and
  has a child list.\<close>

definition templateChildren :: "Psd \<Rightarrow> Layer list" where
  "templateChildren psd =
     (case templateGroup psd of
        None \<Rightarrow> []
      | Some g \<Rightarrow> (case l_children g of None \<Rightarrow> [] | Some cs \<Rightarrow> cs))"

definition pixelBounds :: "Layer \<Rightarrow> int rect" where
  "pixelBounds child =
     (let tp = orZero (l_top child);
          lf = orZero (l_left child);
          bt = orZero (l_bottom child);
          rt = orZero (l_right child);
          width = rt - lf;
          height = bt - tp
      in Rect lf tp width height)"

definition normalizedBounds :: "Layer \<Rightarrow> real \<Rightarrow> real \<Rightarrow> real rect" where
  "normalizedBounds child canvasWidth canvasHeight =
     (let tp = orZero (l_top child);
          lf = orZero (l_left child);
          bt = orZero (l_bottom child);
          rt = orZero (l_right child);
          width = rt - lf;
          height = bt - tp
      in Rect (real_of_int lf / canvasWidth)
              (real_of_int tp / canvasHeight)
              (real_of_int width / canvasWidth)
              (real_of_int height / canvasHeight))"

text \<open>First listing: the default name is \<^verbatim>\<open>'Untitled'\<close>, the id carries the cleaned name.\<close>

definition containerA :: "Layer \<Rightarrow> nat \<Rightarrow> real \<Rightarrow> real \<Rightarrow> ContainerDefinition" where
  "containerA child index canvasWidth canvasHeight =
     (let rawName = orElse (l_name child) ''Untitled'';
          cleanName = stripBangs rawName
      in ContainerDefinition
           (''container-'' @ toString index @ ''-'' @ underscored cleanName)
           cleanName
           rawName
           (pixelBounds child)
           (normalizedBounds child canvasWidth canvasHeight))"

fun eachContainerA :: "nat \<Rightarrow> Layer list \<Rightarrow> real \<Rightarrow> real \<Rightarrow> ContainerDefinition list" where
  "eachContainerA index [] cw ch = []"
| "eachContainerA index (child # rest) cw ch =
     containerA child index cw ch # eachContainerA (Suc index) rest cw ch"

definition extractTemplateMetadataA :: "Psd \<Rightarrow> TemplateMetadata" where
  "extractTemplateMetadataA psd =
     (let canvasWidth = orOne (psd_width psd);
          canvasHeight = orOne (psd_height psd)
      in TemplateMetadata canvasWidth canvasHeight
           (eachContainerA 0 (templateChildren psd) canvasWidth canvasHeight))"

text \<open>Second listing: the default name is \<^verbatim>\<open>`Container ${index}`\<close>, the id is
  \<^verbatim>\<open>`container-${index}`\<close>.\<close>

definition containerB :: "Layer \<Rightarrow> nat \<Rightarrow> real \<Rightarrow> real \<Rightarrow> ContainerDefinition" where
  "containerB child index canvasWidth canvasHeight =
     (let rawName = orElse (l_name child) (''Container '' @ toString index);
          cleanName = stripBangs rawName
      in ContainerDefinition
           (''container-'' @ toString index)
           cleanName
           rawName
           (pixelBounds child)
           (normalizedBounds child canvasWidth canvasHeight))"

fun eachContainerB :: "nat \<Rightarrow> Layer list \<Rightarrow> real \<Rightarrow> real \<Rightarrow> ContainerDefinition list" where
  "eachContainerB index [] cw ch = []"
| "eachContainerB index (child # rest) cw ch =
     containerB child index cw ch # eachContainerB (Suc index) rest cw ch"

definition extractTemplateMetadataB :: "Psd \<Rightarrow> TemplateMetadata" where
  "extractTemplateMetadataB psd =
     (let canvasWidth = orOne (psd_width psd);
          canvasHeight = orOne (psd_height psd)
      in TemplateMetadata canvasWidth canvasHeight
           (eachContainerB 0 (templateChildren psd) canvasWidth canvasHeight))"

subsection \<open>Containment validator, first listing (lines 260-311)\<close>

text \<open>
  Modelled from the spec: the declarations of \<^verbatim>\<open>ValidationIssue\<close> and
  \<^verbatim>\<open>DesignValidationReport\<close> are in \<^verbatim>\<open>../types\<close>, which is not among the sources. The
  fields are the ones the validators write (section 3 of the spec).
\<close>

datatype ValidationIssue = ValidationIssue
  (i_layerName: string)
  (i_containerName: string)
  (i_type: string)
  (i_message: string)

datatype DesignValidationReport = DesignValidationReport
  (isValid: bool)
  (issues: "ValidationIssue list")

text \<open>\<^verbatim>\<open>template.containers.forEach(c => containerMap.set(c.name, c))\<close>: a later container
  of the same name replaces an earlier one.\<close>

definition containerMap :: "TemplateMetadata \<Rightarrow> (string \<rightharpoonup> ContainerDefinition)" where
  "containerMap template = foldl (\<lambda>m c. m(c_name c \<mapsto> c)) Map.empty (containers template)"

text \<open>All four of \<^verbatim>\<open>typeof layer.top === 'number'\<close>, ... hold.\<close>

definition hasBounds :: "Layer \<Rightarrow> bool" where
  "hasBounds layer =
     (l_top layer \<noteq> None \<and> l_left layer \<noteq> None \<and> l_bottom layer \<noteq> None \<and> l_right layer \<noteq> None)"

definition isViolation :: "ContainerDefinition \<Rightarrow> int \<Rightarrow> int \<Rightarrow> int \<Rightarrow> int \<Rightarrow> bool" where
  "isViolation container lf tp rt bt =
     (let containerRight = rect_x (c_bounds container) + rect_w (c_bounds container);
          containerBottom = rect_y (c_bounds container) + rect_h (c_bounds container)
      in lf < rect_x (c_bounds container)
         \<or> tp < rect_y (c_bounds container)
         \<or> rt > containerRight
         \<or> bt > containerBottom)"

text \<open>The template literal prints an undefined name as \<^verbatim>\<open>undefined\<close>.\<close>

definition shown :: "string option \<Rightarrow> string" where
  "shown s = (case s of None \<Rightarrow> ''undefined'' | Some t \<Rightarrow> t)"

definition issueA :: "ContainerDefinition \<Rightarrow> Layer \<Rightarrow> ValidationIssue" where
  "issueA container layer =
     ValidationIssue
       (orElse (l_name layer) ''Untitled Layer'')
       (c_name container)
       ''PROCEDURAL_VIOLATION''
       (''Layer '' @ [CHR 0x27] @ shown (l_name layer) @ [CHR 0x27] @ '' extends outside ''
        @ [CHR 0x27] @ c_name container @ [CHR 0x27] @ '' container.'')"

text \<open>The inner \<^verbatim>\<open>forEach\<close>: one layer of a design group checked against the group's
  container; \<^verbatim>\<open>issues.push\<close> appends.\<close>

definition checkLayerA :: "ContainerDefinition \<Rightarrow> ValidationIssue list \<Rightarrow> Layer \<Rightarrow> ValidationIssue list" where
  "checkLayerA container acc layer =
     (case (l_top layer, l_left layer, l_bottom layer, l_right layer) of
        (Some tp, Some lf, Some bt, Some rt) \<Rightarrow>
          if isViolation container lf tp rt bt then acc @ [issueA container layer] else acc
      | _ \<Rightarrow> acc)"

text \<open>The outer \<^verbatim>\<open>forEach\<close>: one top-level group.\<close>

definition checkGroupA :: "(string \<rightharpoonup> ContainerDefinition) \<Rightarrow> ValidationIssue list \<Rightarrow> Layer \<Rightarrow> ValidationIssue list" where
  "checkGroupA cmap acc grp =
     (if l_name grp = Some ''!!TEMPLATE'' then acc
      else case l_name grp of
             None \<Rightarrow> acc
           | Some gname \<Rightarrow>
               if gname = [] then acc
               else (case cmap gname of
                       None \<Rightarrow> acc
                     | Some container \<Rightarrow>
                         (case l_children grp of
                            None \<Rightarrow> acc
                          | Some layers \<Rightarrow> foldl (checkLayerA container) acc layers)))"

definition mapLayersToContainersA :: "Psd \<Rightarrow> TemplateMetadata \<Rightarrow> DesignValidationReport" where
  "mapLayersToContainersA psd template =
     (let found = (case psd_children psd of
                      None \<Rightarrow> []
                    | Some groups \<Rightarrow> foldl (checkGroupA (containerMap template)) [] groups)
      in DesignValidationReport (found = []) found)"

subsection \<open>Containment validator, second listing (lines 782-800)\<close>

definition designRoot :: "Psd \<Rightarrow> Layer option" where
  "designRoot psd =
     (case psd_children psd of
        None \<Rightarrow> None
      | Some cs \<Rightarrow> find (\<lambda>c. l_name c \<noteq> Some ''!!TEMPLATE'') cs)"

definition mapLayersToContainersB :: "Psd \<Rightarrow> TemplateMetadata \<Rightarrow> DesignValidationReport" where
  "mapLayersToContainersB psd template =
     (let found =
            (if designRoot psd = None
                \<and> (case psd_children psd of None \<Rightarrow> True | Some cs \<Rightarrow> length cs = 0)
             then [ValidationIssue ''Root'' ''Global'' ''PROCEDURAL_VIOLATION''
                     ''PSD appears empty or missing design layers.'']
             else [])
      in DesignValidationReport (found = []) found)"

subsection \<open>The transformed payload and the raster surface\<close>

text \<open>
  Modelled from the spec: the declarations of \<^verbatim>\<open>TransformedLayer\<close> and
  \<^verbatim>\<open>TransformedPayload\<close> are in \<^verbatim>\<open>../types\<close>, which is not among the sources. The fields
  are the ones the compositors read (section 3 of the spec): of a layer its id, kind,
  visibility, opacity, target box, rotation in degrees (optional) and children
  (optional); of a payload the target size \<^verbatim>\<open>metrics.target.w\<close> and \<^verbatim>\<open>.h\<close>, the optional
  offset \<^verbatim>\<open>.x\<close> and \<^verbatim>\<open>.y\<close>, the layers and the optional preview reference.
\<close>

datatype TransformedLayer = TransformedLayer
  (tl_id: string)
  (tl_type: LayerKind)
  (tl_isVisible: bool)
  (tl_opacity: real)
  (tl_coords: "real rect")
  (tl_rotation: "real option")
  (tl_children: "TransformedLayer list option")

datatype TransformedPayload = TransformedPayload
  (target_w: real)
  (target_h: real)
  (target_x: "real option")
  (target_y: "real option")
  (p_layers: "TransformedLayer list")
  (previewUrl: "string option")

text \<open>The 2D context is modelled by the calls made on it, in order. A gradient built
  by \<^verbatim>\<open>createLinearGradient\<close> and \<^verbatim>\<open>addColorStop\<close> is the fill style it becomes.
  \<open>RotateDegrees r\<close> is the call \<^verbatim>\<open>ctx.rotate((r * Math.PI) / 180)\<close>.\<close>

datatype FillStyle =
    Color string
  | LinearGradient real real real real "(real \<times> string) list"

datatype CtxCall =
    Save
  | Restore
  | SetFillStyle FillStyle
  | SetStrokeStyle string
  | SetLineWidth real
  | SetGlobalAlpha real
  | SetFont string
  | FillRect real real real real
  | StrokeRect real real real real
  | FillText string real real
  | Translate real real
  | RotateDegrees real
  | DrawImage Canvas real real real real

text \<open>The assignments \<^verbatim>\<open>canvas.width = w\<close> and \<^verbatim>\<open>canvas.height = h\<close> of the browser: the
  number is converted to an unsigned 32-bit integer (truncated towards zero, modulo
  \<open>2 ^ 32\<close>); a result above 2147483647, as every negative integer gives, sets the
  attribute to its default (300 for the width, 150 for the height).\<close>

definition reflectUnsignedLong :: "real \<Rightarrow> nat \<Rightarrow> nat" where
  "reflectUnsignedLong v dflt =
     (let k = (if v < 0 then - \<lfloor>- v\<rfloor> else \<lfloor>v\<rfloor>) mod 4294967296
      in if k \<le> 2147483647 then nat k else dflt)"

text \<open>The encoded snapshot \<^verbatim>\<open>canvas.toDataURL(type, quality)\<close>: the format, the quality,
  the surface's size and what was painted on it.\<close>

datatype DataURL = DataURL
  (d_type: string)
  (d_quality: "real option")
  (d_width: nat)
  (d_height: nat)
  (d_calls: "CtxCall list")

text \<open>\<^verbatim>\<open>ctx.drawImage(image, dx, dy, dw, dh)\<close> of the browser throws \<^verbatim>\<open>InvalidStateError\<close>
  when the image is a canvas whose width or height is zero (an empty pixel source);
  otherwise it draws.\<close>

definition drawImage :: "CtxCall list \<Rightarrow> Canvas \<Rightarrow> real \<Rightarrow> real \<Rightarrow> real \<Rightarrow> real \<Rightarrow> js_error + CtxCall list" where
  "drawImage ctx src dx dy dw dh =
     (if cv_width src = 0 \<or> cv_height src = 0 then Inl InvalidStateError
      else Inr (ctx @ [DrawImage src dx dy dw dh]))"

text \<open>\<^verbatim>\<open>v || 0\<close> on an optional number.\<close>

definition orZeroR :: "real option \<Rightarrow> real" where
  "orZeroR v = (case v of None \<Rightarrow> 0 | Some k \<Rightarrow> k)"

text \<open>Folding a step that may throw over a list, left to right: the first exception
  ends the fold.\<close>

fun foldE :: "('a \<Rightarrow> 's \<Rightarrow> 'e + 's) \<Rightarrow> 'a list \<Rightarrow> 's \<Rightarrow> 'e + 's" where
  "foldE f [] s = Inr s"
| "foldE f (x # xs) s = (case f x s of Inl e \<Rightarrow> Inl e | Inr s' \<Rightarrow> foldE f xs s')"

text \<open>The calls of a sequence of painting steps, each started on a clean log, one after
  the other: the calls of the first item come first; the first exception ends it.\<close>

fun traceE :: "('a \<Rightarrow> 'e + 'c list) \<Rightarrow> 'a list \<Rightarrow> 'e + 'c list" where
  "traceE f [] = Inr []"
| "traceE f (x # xs) =
     (case f x of
        Inl e \<Rightarrow> Inl e
      | Inr cs \<Rightarrow> (case traceE f xs of Inl e \<Rightarrow> Inl e | Inr ds \<Rightarrow> Inr (cs @ ds)))"

text \<open>A result with the calls already on the surface put in front.\<close>

definition after :: "'c list \<Rightarrow> 'e + 'c list \<Rightarrow> 'e + 'c list" where
  "after ctx r = (case r of Inl e \<Rightarrow> Inl e | Inr cs \<Rightarrow> Inr (ctx @ cs))"

subsection \<open>Compositing engine, first listing (lines 397-518)\<close>

text \<open>The culling test of the loop body.\<close>

definition culled :: "real \<Rightarrow> real \<Rightarrow> TransformedLayer \<Rightarrow> bool" where
  "culled w h layer =
     (rect_x (tl_coords layer) > w
      \<or> rect_y (tl_coords layer) > h
      \<or> rect_x (tl_coords layer) + rect_w (tl_coords layer) < 0
      \<or> rect_y (tl_coords layer) + rect_h (tl_coords layer) < 0)"

text \<open>Branch 2, the placeholder of a generative layer.\<close>

definition generativeA :: "TransformedPayload \<Rightarrow> TransformedLayer \<Rightarrow> CtxCall list \<Rightarrow> CtxCall list" where
  "generativeA payload layer ctx =
     (let gx = rect_x (tl_coords layer);
          gy = rect_y (tl_coords layer);
          gw = rect_w (tl_coords layer);
          gh = rect_h (tl_coords layer);
          ctx1 = ctx @ [SetGlobalAlpha (tl_opacity layer)]
      in if previewUrl payload \<noteq> None \<and> previewUrl payload \<noteq> Some [] then
           ctx1 @ [SetFillStyle (Color ''rgba(192, 132, 252, 0.2)''),
                   SetStrokeStyle ''rgba(192, 132, 252, 0.8)'',
                   SetLineWidth 1,
                   FillRect gx gy gw gh,
                   StrokeRect gx gy gw gh,
                   SetFillStyle (Color ''#e9d5ff''),
                   SetFont ''10px monospace'',
                   FillText ''AI GEN'' (gx + 4) (gy + 12)]
         else
           ctx1 @ [SetFillStyle (LinearGradient gx gy (gx + gw) (gy + gh)
                                   [(0, ''rgba(99, 102, 241, 0.3)''), (1, ''rgba(168, 85, 247, 0.3)'')]),
                   FillRect gx gy gw gh,
                   SetStrokeStyle ''rgba(168, 85, 247, 0.5)'',
                   StrokeRect gx gy gw gh])"

text \<open>Branch 3, a pixel layer: the source is resolved against the original tree; the
  \<^verbatim>\<open>try\<close> around \<^verbatim>\<open>drawImage\<close> swallows its exception.\<close>

definition pixelA :: "Psd \<Rightarrow> TransformedLayer \<Rightarrow> CtxCall list \<Rightarrow> js_error + CtxCall list" where
  "pixelA psd layer ctx =
     (case findLayerByPathA psd (tl_id layer) of
        Inl e \<Rightarrow> Inl e
      | Inr None \<Rightarrow> Inr ctx
      | Inr (Some originalLayer) \<Rightarrow>
          (case l_canvas originalLayer of
             None \<Rightarrow> Inr ctx
           | Some src \<Rightarrow>
               (let cx = rect_x (tl_coords layer) + rect_w (tl_coords layer) / 2;
                    cy = rect_y (tl_coords layer) + rect_h (tl_coords layer) / 2;
                    ctx1 = ctx @ [SetGlobalAlpha (tl_opacity layer), Translate cx cy];
                    ctx2 = (case tl_rotation layer of
                              None \<Rightarrow> ctx1
                            | Some r \<Rightarrow> if r = 0 then ctx1 else ctx1 @ [RotateDegrees r])
                in case drawImage ctx2 src
                          (- rect_w (tl_coords layer) / 2) (- rect_h (tl_coords layer) / 2)
                          (rect_w (tl_coords layer)) (rect_h (tl_coords layer)) of
                     Inl e \<Rightarrow> Inr ctx2
                   | Inr ctx3 \<Rightarrow> Inr ctx3)))"

text \<open>The loop body \<open>drawLayerA\<close> and the loop \<^verbatim>\<open>for (let i = layers.length - 1; i >= 0; i--)\<close>,
  whose counter is one more than \<open>i\<close>. Reading \<^verbatim>\<open>layers[i]\<close> outside the array gives
  \<^verbatim>\<open>undefined\<close>, and \<^verbatim>\<open>layer.coords\<close> throws on it.\<close>

function drawLayerA :: "TransformedPayload \<Rightarrow> Psd \<Rightarrow> TransformedLayer \<Rightarrow> CtxCall list \<Rightarrow> js_error + CtxCall list"
  and drawLayersA_loop :: "TransformedPayload \<Rightarrow> Psd \<Rightarrow> TransformedLayer list \<Rightarrow> nat \<Rightarrow> CtxCall list \<Rightarrow> js_error + CtxCall list"
  where
  "drawLayerA payload psd layer ctx =
     (if culled (target_w payload) (target_h payload) layer then Inr ctx
      else if \<not> tl_isVisible layer then Inr ctx
      else
        (case (if tl_type layer = KGroup \<and> tl_children layer \<noteq> None
               then drawLayersA_loop payload psd (the (tl_children layer))
                      (length (the (tl_children layer))) (ctx @ [Save])
               else if tl_type layer = KGenerative
               then Inr (generativeA payload layer (ctx @ [Save]))
               else pixelA psd layer (ctx @ [Save])) of
           Inl e \<Rightarrow> Inl e
         | Inr ctx' \<Rightarrow> Inr (ctx' @ [Restore])))"
| "drawLayersA_loop payload psd layers 0 ctx = Inr ctx"
| "drawLayersA_loop payload psd layers (Suc i) ctx =
     (if i < length layers then
        (case drawLayerA payload psd (layers ! i) ctx of
           Inl e \<Rightarrow> Inl e
         | Inr ctx' \<Rightarrow> drawLayersA_loop payload psd layers i ctx')
      else Inl TypeError)"
  by pat_completeness auto
termination
proof (relation "measures
    [\<lambda>x. case x of Inl (payload, psd, layer, ctx) \<Rightarrow> size layer
                  | Inr (payload, psd, layers, n, ctx) \<Rightarrow> size_list size layers,
     \<lambda>x. case x of Inl (payload, psd, layer, ctx) \<Rightarrow> 0
                  | Inr (payload, psd, layers, n, ctx) \<Rightarrow> Suc n]", goal_cases)
  case 1
  show ?case by simp
next
  case (2 payload psd layer ctx)
  then show ?case by (cases layer) auto
next
  case (3 payload psd layers i ctx)
  have "size (layers ! i) < size_list size layers" if "i < length layers" for i
    using that
  proof (induction layers arbitrary: i)
    case Nil
    then show ?case by simp
  next
    case (Cons a layers)
    then show ?case by (cases i) (auto simp: less_Suc_eq trans_less_add2)
  qed
  with 3 show ?case by simp
next
  case 4
  then show ?case by simp
qed

definition drawLayersA :: "TransformedPayload \<Rightarrow> Psd \<Rightarrow> TransformedLayer list \<Rightarrow> CtxCall list \<Rightarrow> js_error + CtxCall list" where
  "drawLayersA payload psd layers ctx = drawLayersA_loop payload psd layers (length layers) ctx"

text \<open>What one layer, with its subtree, paints on a clean surface.\<close>

definition paintedA :: "TransformedPayload \<Rightarrow> Psd \<Rightarrow> TransformedLayer \<Rightarrow> CtxCall list" where
  "paintedA payload psd layer =
     (case drawLayerA payload psd layer [] of Inl e \<Rightarrow> [] | Inr cs \<Rightarrow> cs)"

text \<open>\<open>has2d\<close> says whether \<^verbatim>\<open>canvas.getContext('2d')\<close> gives a context. The arguments
  may be \<^verbatim>\<open>null\<close>: the first statement tests them.\<close>

definition compositePayloadToCanvasA :: "bool \<Rightarrow> TransformedPayload option \<Rightarrow> Psd option \<Rightarrow> js_error + DataURL option" where
  "compositePayloadToCanvasA has2d payload psd =
     (case payload of
        None \<Rightarrow> Inr None
      | Some pl \<Rightarrow>
          (case psd of
             None \<Rightarrow> Inr None
           | Some ps \<Rightarrow>
               if \<not> has2d then Inr None
               else (case drawLayersA pl ps (p_layers pl)
                            [SetFillStyle (Color ''#0f172a''), FillRect 0 0 (target_w pl) (target_h pl)] of
                       Inl e \<Rightarrow> Inl e
                     | Inr ctx \<Rightarrow>
                         Inr (Some (DataURL ''image/jpeg'' (Some (9 / 10))
                                      (reflectUnsignedLong (target_w pl) 300)
                                      (reflectUnsignedLong (target_h pl) 150) ctx)))))"

subsection \<open>Compositing engine, second listing (lines 873-934)\<close>

definition generativeB :: "real \<Rightarrow> real \<Rightarrow> TransformedLayer \<Rightarrow> CtxCall list \<Rightarrow> CtxCall list" where
  "generativeB targetX targetY layer ctx =
     (let lx = rect_x (tl_coords layer) - targetX;
          ly = rect_y (tl_coords layer) - targetY
      in ctx @ [Save,
                SetFillStyle (Color ''rgba(124, 58, 237, 0.3)''),
                SetStrokeStyle ''rgba(124, 58, 237, 0.8)'',
                SetLineWidth 1,
                FillRect lx ly (rect_w (tl_coords layer)) (rect_h (tl_coords layer)),
                StrokeRect lx ly (rect_w (tl_coords layer)) (rect_h (tl_coords layer)),
                Restore])"

text \<open>A pixel layer: no \<^verbatim>\<open>try\<close> stands around \<^verbatim>\<open>drawImage\<close> here.\<close>

definition pixelB :: "Psd \<Rightarrow> real \<Rightarrow> real \<Rightarrow> TransformedLayer \<Rightarrow> CtxCall list \<Rightarrow> js_error + CtxCall list" where
  "pixelB psd targetX targetY layer ctx =
     (case findLayerByPathB psd (tl_id layer) of
        Inl e \<Rightarrow> Inl e
      | Inr None \<Rightarrow> Inr ctx
      | Inr (Some originalLayer) \<Rightarrow>
          (case l_canvas originalLayer of
             None \<Rightarrow> Inr ctx
           | Some src \<Rightarrow>
               (let lx = rect_x (tl_coords layer) - targetX;
                    ly = rect_y (tl_coords layer) - targetY;
                    rot = orZeroR (tl_rotation layer);
                    cx = lx + rect_w (tl_coords layer) / 2;
                    cy = ly + rect_h (tl_coords layer) / 2;
                    ctx1 = ctx @ [Save, SetGlobalAlpha (tl_opacity layer)];
                    ctx2 = (if rot \<noteq> 0
                            then ctx1 @ [Translate cx cy, RotateDegrees rot, Translate (- cx) (- cy)]
                            else ctx1)
                in case drawImage ctx2 src lx ly (rect_w (tl_coords layer)) (rect_h (tl_coords layer)) of
                     Inl e \<Rightarrow> Inl e
                   | Inr ctx3 \<Rightarrow> Inr (ctx3 @ [Restore]))))"

function drawLayerB :: "Psd \<Rightarrow> real \<Rightarrow> real \<Rightarrow> TransformedLayer \<Rightarrow> CtxCall list \<Rightarrow> js_error + CtxCall list"
  and drawLayersB_loop :: "Psd \<Rightarrow> real \<Rightarrow> real \<Rightarrow> TransformedLayer list \<Rightarrow> nat \<Rightarrow> CtxCall list \<Rightarrow> js_error + CtxCall list"
  where
  "drawLayerB psd targetX targetY layer ctx =
     (if \<not> tl_isVisible layer then Inr ctx
      else
        (case (if tl_type layer = KGenerative then Inr (generativeB targetX targetY layer ctx)
               else if tl_type layer \<noteq> KGroup then pixelB psd targetX targetY layer ctx
               else Inr ctx) of
           Inl e \<Rightarrow> Inl e
         | Inr ctx' \<Rightarrow>
             (case tl_children layer of
                None \<Rightarrow> Inr ctx'
              | Some kids \<Rightarrow> drawLayersB_loop psd targetX targetY kids (length kids) ctx')))"
| "drawLayersB_loop psd targetX targetY layers 0 ctx = Inr ctx"
| "drawLayersB_loop psd targetX targetY layers (Suc i) ctx =
     (if i < length layers then
        (case drawLayerB psd targetX targetY (layers ! i) ctx of
           Inl e \<Rightarrow> Inl e
         | Inr ctx' \<Rightarrow> drawLayersB_loop psd targetX targetY layers i ctx')
      else Inl TypeError)"
  by pat_completeness auto
termination
proof (relation "measures
    [\<lambda>x. case x of Inl (psd, tx, ty, layer, ctx) \<Rightarrow> size layer
                  | Inr (psd, tx, ty, layers, n, ctx) \<Rightarrow> size_list size layers,
     \<lambda>x. case x of Inl (psd, tx, ty, layer, ctx) \<Rightarrow> 0
                  | Inr (psd, tx, ty, layers, n, ctx) \<Rightarrow> Suc n]", goal_cases)
  case 1
  show ?case by simp
next
  case (2 psd targetX targetY layer ctx ctx' kids)
  then show ?case by (cases layer) simp
next
  case (3 psd targetX targetY layers i ctx)
  have "size (layers ! i) < size_list size layers" if "i < length layers" for i
    using that
  proof (induction layers arbitrary: i)
    case Nil
    then show ?case by simp
  next
    case (Cons a layers)
    then show ?case by (cases i) (auto simp: less_Suc_eq trans_less_add2)
  qed
  with 3 show ?case by simp
next
  case 4
  then show ?case by simp
qed

definition drawLayersB :: "Psd \<Rightarrow> real \<Rightarrow> real \<Rightarrow> TransformedLayer list \<Rightarrow> CtxCall list \<Rightarrow> js_error + CtxCall list" where
  "drawLayersB psd targetX targetY layers ctx =
     drawLayersB_loop psd targetX targetY layers (length layers) ctx"

definition compositePayloadToCanvasB :: "bool \<Rightarrow> TransformedPayload \<Rightarrow> Psd \<Rightarrow> js_error + DataURL option" where
  "compositePayloadToCanvasB has2d payload psd =
     (if target_w payload \<le> 0 \<or> target_h payload \<le> 0 then Inr None
      else if \<not> has2d then Inr None
      else (case drawLayersB psd (orZeroR (target_x payload)) (orZeroR (target_y payload))
                   (p_layers payload) [] of
              Inl e \<Rightarrow> Inl e
            | Inr ctx \<Rightarrow>
                Inr (Some (DataURL ''image/png'' None
                             (reflectUnsignedLong (target_w payload) 300)
                             (reflectUnsignedLong (target_h payload) 150) ctx))))"

declare drawLayerA.simps [simp del]

declare drawLayerB.simps [simp del]

subsection \<open>A sample document\<close>

text \<open>A template group with the container \<^verbatim>\<open>!!BG\<close> (200 by 100), and a design group
  \<^verbatim>\<open>BG\<close> whose one layer starts five pixels above the container.\<close>

definition ex_container :: Layer where
  "ex_container = Layer (Some ''!!BG'') (Some 0) (Some 0) (Some 100) (Some 200) None None None None"

definition ex_template :: Layer where
  "ex_template = Layer (Some ''!!TEMPLATE'') None None None None None None None (Some [ex_container])"

definition ex_art :: Layer where
  "ex_art = Layer (Some ''art'') (Some (- 5)) (Some 0) (Some 50) (Some 50) None None
              (Some (Canvas 50 55)) None"

definition ex_design :: Layer where
  "ex_design = Layer (Some ''BG'') None None None None None None None (Some [ex_art])"

definition ex_psd :: Psd where
  "ex_psd = Psd (Some 200) (Some 100) (Some [ex_template, ex_design])"

text \<open>Two pixel layers, the second with an empty pixel source.\<close>

definition ex_good :: Layer where
  "ex_good = Layer (Some ''photo'') (Some 0) (Some 0) (Some 10) (Some 10) None None
               (Some (Canvas 10 10)) None"

definition ex_empty :: Layer where
  "ex_empty = Layer (Some ''empty'') (Some 0) (Some 0) (Some 0) (Some 0) None None
                (Some (Canvas 0 0)) None"

definition ex_pixels :: Psd where
  "ex_pixels = Psd (Some 20) (Some 20) (Some [ex_good, ex_empty])"

text \<open>Payloads that place those two layers on a canvas of 20 by 20, addressed as each
  listing's serializer addresses them; and a payload for a canvas without area.\<close>

definition ex_payloadA :: TransformedPayload where
  "ex_payloadA = TransformedPayload 20 20 None None
     [TransformedLayer ''0'' KLayer True 1 (Rect 0 0 10 10) None None,
      TransformedLayer ''1'' KLayer True 1 (Rect 5 5 10 10) None None] None"

definition ex_payloadB :: TransformedPayload where
  "ex_payloadB = TransformedPayload 20 20 None None
     [TransformedLayer ''root-0'' KLayer True 1 (Rect 0 0 10 10) None None,
      TransformedLayer ''root-1'' KLayer True 1 (Rect 5 5 10 10) None None] None"

definition ex_zero :: TransformedPayload where
  "ex_zero = TransformedPayload 0 0 None None [] None"

text \<open>A template group with two children: the named container of before, and a child
  without a name that has a bottom and a right edge but neither top nor left.\<close>

definition ex_partial :: Layer where
  "ex_partial = Layer None None None (Some 50) (Some 50) None None None None"

definition ex_template2 :: Layer where
  "ex_template2 = Layer (Some ''!!TEMPLATE'') None None None None None None None
                    (Some [ex_container, ex_partial])"

definition ex_psd2 :: Psd where
  "ex_psd2 = Psd (Some 200) (Some 100) (Some [ex_template2, ex_design])"


subsection \<open>What the validator is to report\<close>

text \<open>A layer with all four coordinates that leaves the container on some edge.\<close>

definition violates :: "ContainerDefinition \<Rightarrow> Layer \<Rightarrow> bool" where
  "violates container layer =
     (hasBounds layer
      \<and> (orZero (l_left layer) < rect_x (c_bounds container)
         \<or> orZero (l_top layer) < rect_y (c_bounds container)
         \<or> orZero (l_right layer) > rect_x (c_bounds container) + rect_w (c_bounds container)
         \<or> orZero (l_bottom layer) > rect_y (c_bounds container) + rect_h (c_bounds container)))"

text \<open>The container a top-level group is checked against: none for the template group,
  for a group without a name, and for a name no container has.\<close>

definition matching :: "TemplateMetadata \<Rightarrow> Layer \<Rightarrow> ContainerDefinition option" where
  "matching template grp =
     (case l_name grp of
        None \<Rightarrow> None
      | Some gname \<Rightarrow>
          if gname = ''!!TEMPLATE'' \<or> gname = [] then None else containerMap template gname)"

definition childrenOf :: "Layer \<Rightarrow> Layer list" where
  "childrenOf grp = (case l_children grp of None \<Rightarrow> [] | Some cs \<Rightarrow> cs)"

definition topLevel :: "Psd \<Rightarrow> Layer list" where
  "topLevel psd = (case psd_children psd of None \<Rightarrow> [] | Some cs \<Rightarrow> cs)"

definition expectedIssues :: "Psd \<Rightarrow> TemplateMetadata \<Rightarrow> ValidationIssue list" where
  "expectedIssues psd template =
     concat (map (\<lambda>grp. case matching template grp of
                           None \<Rightarrow> []
                         | Some container \<Rightarrow>
                             concat (map (\<lambda>layer. if violates container layer
                                                  then [issueA container layer] else [])
                                         (childrenOf grp)))
                 (topLevel psd))"

section \<open>Theorems\<close>

subsection \<open>The index codec\<close>

text \<open>
  An index printed in decimal and joined with the separator is read back by \<^verbatim>\<open>split\<close>
  and \<^verbatim>\<open>Number\<close> (first listing) or \<^verbatim>\<open>parseInt\<close> (second listing) as the same index.
\<close>


lemma split_on_not_Nil: "split_on sep s \<noteq> []"
  by (induction s) auto

lemma split_on_no_sep: "sep \<notin> set s \<Longrightarrow> split_on sep s = [s]"
  by (induction s) auto

lemma split_on_append: "split_on sep (p @ sep # s) = split_on sep p @ split_on sep s"
proof (induction p)
  case Nil
  show ?case by simp
next
  case (Cons c p)
  then show ?case using split_on_not_Nil [of sep p] by (cases "split_on sep p") auto
qed

lemma is_digit_digit_char: "d < 10 \<Longrightarrow> is_digit (digit_char d)"
  by (simp add: is_digit_def digit_char_def)

lemma digit_val_digit_char: "d < 10 \<Longrightarrow> digit_val (digit_char d) = d"
  by (simp add: digit_val_def digit_char_def)

lemma toString_not_Nil: "toString n \<noteq> []"
  by (subst toString.simps) simp

lemma toString_digits: "list_all is_digit (toString n)"
proof (induction n rule: toString.induct)
  case (1 n)
  show ?case
  proof (cases "n < 10")
    case True
    then show ?thesis by (subst toString.simps) (simp add: is_digit_digit_char)
  next
    case False
    with 1 show ?thesis by (subst toString.simps) (simp add: is_digit_digit_char)
  qed
qed

lemma dec_value_snoc: "dec_value (ds @ [c]) = 10 * dec_value ds + digit_val c"
  by (simp add: dec_value_def)

lemma dec_value_toString: "dec_value (toString n) = n"
proof (induction n rule: toString.induct)
  case (1 n)
  show ?case
  proof (cases "n < 10")
    case True
    then show ?thesis by (subst toString.simps) (simp add: dec_value_def digit_val_digit_char)
  next
    case False
    with 1 show ?thesis
      by (subst toString.simps) (simp add: dec_value_snoc digit_val_digit_char)
  qed
qed

lemma digit_not_ws: "is_digit c \<Longrightarrow> \<not> is_ws c"
  by (auto simp: is_digit_def is_ws_def)

lemma digit_not_exp: "is_digit c \<Longrightarrow> \<not> is_exp_char c"
  by (auto simp: is_digit_def is_exp_char_def)

lemma digit_not_sign:
  "is_digit c \<Longrightarrow> c \<noteq> CHR ''-'' \<and> c \<noteq> CHR ''+'' \<and> c \<noteq> CHR ''.''"
  by (auto simp: is_digit_def)

lemma digit_not_prefix:
  "is_digit c \<Longrightarrow> c \<noteq> CHR ''x'' \<and> c \<noteq> CHR ''X'' \<and> c \<noteq> CHR ''o'' \<and> c \<noteq> CHR ''O'' \<and> c \<noteq> CHR ''b'' \<and> c \<noteq> CHR ''B'' \<and> c \<noteq> CHR ''I''"
  by (auto simp: is_digit_def)

lemma dropWhile_hd_id: "xs \<noteq> [] \<Longrightarrow> \<not> P (hd xs) \<Longrightarrow> dropWhile P xs = xs"
  by (cases xs) auto

lemma trim_digits:
  assumes "list_all is_digit ds"
  shows "trim ds = ds"
proof (cases "ds = []")
  case True
  then show ?thesis by (simp add: trim_def)
next
  case False
  have h: "\<not> is_ws (hd ds)" using assms False by (cases ds) (auto simp: digit_not_ws)
  have "last ds \<in> set ds" using False by simp
  then have l: "\<not> is_ws (last ds)" using assms by (auto simp: list_all_iff digit_not_ws)
  have a: "dropWhile is_ws ds = ds" using False h by (rule dropWhile_hd_id [where P = is_ws])
  have "rev ds \<noteq> []" using False by simp
  moreover have "\<not> is_ws (hd (rev ds))" using l False by (simp add: hd_rev)
  ultimately have b: "dropWhile is_ws (rev ds) = rev ds" by (rule dropWhile_hd_id [where P = is_ws])
  show ?thesis by (simp add: trim_def a b)
qed

lemma nonDecimal_digits:
  assumes "list_all is_digit ds"
  shows "nonDecimalIntegerLiteral ds = None"
proof (cases ds)
  case Nil
  then show ?thesis by (simp add: nonDecimalIntegerLiteral_def)
next
  case (Cons z r)
  show ?thesis
  proof (cases r)
    case Nil
    with Cons show ?thesis by (simp add: nonDecimalIntegerLiteral_def)
  next
    case (Cons p r')
    with assms \<open>ds = z # r\<close> have "is_digit p" by simp
    from digit_not_prefix [OF this] Cons \<open>ds = z # r\<close> show ?thesis
      by (simp add: nonDecimalIntegerLiteral_def)
  qed
qed

lemma takeWhile_all: "list_all P xs \<Longrightarrow> takeWhile P xs = xs"
  by (induction xs) auto

lemma dropWhile_all: "list_all P xs \<Longrightarrow> dropWhile P xs = []"
  by (induction xs) auto

lemma mantissa_digits:
  assumes "list_all is_digit ds" "ds \<noteq> []"
  shows "mantissa ds = Some (dec_value ds, 0)"
  using assms by (simp add: mantissa_def takeWhile_all dropWhile_all)

lemma unsigned_digits:
  assumes "list_all is_digit ds" "ds \<noteq> []"
  shows "strUnsignedDecimalLiteral ds = Some (of_nat (dec_value ds))"
proof -
  have ne: "list_all (\<lambda>c. \<not> is_exp_char c) ds"
    using assms(1) by (induction ds) (auto simp: digit_not_exp)
  show ?thesis
    using assms
    by (simp add: strUnsignedDecimalLiteral_def takeWhile_all [OF ne] dropWhile_all [OF ne]
        mantissa_digits scale10_def)
qed

lemma hd_digit:
  assumes "list_all is_digit ds" "ds \<noteq> []"
  shows "is_digit (hd ds)"
  using assms by (cases ds) auto

lemma strDecimal_digits:
  assumes "list_all is_digit ds" "ds \<noteq> []"
  shows "strDecimalLiteral ds = Num (of_nat (dec_value ds))"
proof -
  have c: "is_digit (hd ds)" by (rule hd_digit [OF assms])
  have "hd ds \<noteq> CHR ''I''" using digit_not_prefix [OF c] by simp
  then have inf: "ds \<noteq> ''Infinity''" by auto
  have sg: "hd ds \<noteq> CHR ''-''" "hd ds \<noteq> CHR ''+''" using digit_not_sign [OF c] by simp_all
  show ?thesis
    unfolding strDecimalLiteral_def Let_def
    by (simp only: sg inf unsigned_digits [OF assms] simp_thms if_False option.case)
qed

lemma Number_digits:
  assumes "list_all is_digit ds" "ds \<noteq> []"
  shows "Number ds = Num (of_nat (dec_value ds))"
  using assms by (simp add: Number_def trim_digits nonDecimal_digits strDecimal_digits)

lemma Number_toString: "Number (toString n) = Num (of_nat n)"
  by (simp add: Number_digits toString_digits toString_not_Nil dec_value_toString)

lemma parseInt10_digits:
  assumes "list_all is_digit ds" "ds \<noteq> []"
  shows "parseInt10 ds = Num (of_nat (dec_value ds))"
proof -
  have c: "is_digit (hd ds)" by (rule hd_digit [OF assms])
  have a: "dropWhile is_ws ds = ds" using assms(2) digit_not_ws [OF c] by (cases ds) auto
  have sg: "hd ds \<noteq> CHR ''-''" "hd ds \<noteq> CHR ''+''" using digit_not_sign [OF c] by simp_all
  show ?thesis
    unfolding parseInt10_def Let_def a
    by (simp only: sg takeWhile_all [OF assms(1)] assms(2) simp_thms if_False)
qed

lemma parseInt10_toString: "parseInt10 (toString n) = Num (of_nat n)"
  by (simp add: parseInt10_digits toString_digits toString_not_Nil dec_value_toString)

lemma js_index_nat: "js_index ls (Num (of_nat i)) = (if i < length ls then Some (ls ! i) else None)"
  by simp

lemma js_ge_nat: "js_ge (Num (of_nat i)) n = (n \<le> i)"
  by simp


lemma toString_no_sep: "\<not> is_digit sep \<Longrightarrow> sep \<notin> set (toString n)"
  using toString_digits [of n] by (auto simp: list_all_iff)

lemma dot_not_digit: "\<not> is_digit CHR ''.''"
  by (simp add: is_digit_def)

lemma dash_not_digit: "\<not> is_digit CHR ''-''"
  by (simp add: is_digit_def)

lemma currentPathA_not_Nil: "currentPathA path i \<noteq> []"
  by (simp add: currentPathA_def toString_not_Nil)

lemma split_currentPathA:
  "split_on CHR ''.'' (currentPathA path i) =
     (if path = [] then [toString i] else split_on CHR ''.'' path @ [toString i])"
  using split_on_append [of "CHR ''.''" path "toString i"]
  by (simp add: currentPathA_def split_on_no_sep toString_no_sep dot_not_digit)

lemma split_pathIdA:
  "path \<noteq> [] \<Longrightarrow> split_on CHR ''.'' (pathIdA path p) = split_on CHR ''.'' path @ map toString p"
proof (induction p arbitrary: path)
  case Nil
  show ?case by (simp add: pathIdA_def)
next
  case (Cons i p)
  have "split_on CHR ''.'' (pathIdA (currentPathA path i) p)
        = split_on CHR ''.'' (currentPathA path i) @ map toString p"
    by (rule Cons.IH) (rule currentPathA_not_Nil)
  then show ?case using Cons.prems by (simp add: pathIdA_def split_currentPathA)
qed

lemma split_pathIdA_root:
  "p \<noteq> [] \<Longrightarrow> split_on CHR ''.'' (pathIdA [] p) = map toString p"
proof (cases p)
  case Nil
  then show "p \<noteq> [] \<Longrightarrow> ?thesis" by simp
next
  case (Cons i r)
  have "pathIdA [] p = pathIdA (currentPathA [] i) r" by (simp add: pathIdA_def Cons)
  then show ?thesis
    using split_pathIdA [OF currentPathA_not_Nil, of "[]" i r] Cons
    by (simp add: split_currentPathA)
qed

lemma pathIdA_not_Nil: "p \<noteq> [] \<Longrightarrow> pathIdA path p \<noteq> []"
proof (induction p arbitrary: path)
  case Nil
  then show ?case by simp
next
  case (Cons i p)
  show ?case
  proof (cases "p = []")
    case True
    then show ?thesis by (simp add: pathIdA_def currentPathA_not_Nil)
  next
    case False
    from Cons.IH [OF False, of "currentPathA path i"] show ?thesis by (simp add: pathIdA_def)
  qed
qed

lemma walkA_nat:
  "walkA (map (\<lambda>i. Num (of_nat i)) p) cur tgt =
     Inr (if p = [] then tgt else case cur of None \<Rightarrow> None | Some ls \<Rightarrow> nodeAt ls p)"
proof (induction p arbitrary: cur tgt)
  case Nil
  show ?case by simp
next
  case (Cons i p)
  show ?case
  proof (cases cur)
    case None
    then show ?thesis by simp
  next
    case (Some ls)
    show ?thesis
    proof (cases "i < length ls")
      case False
      with Some show ?thesis by simp
    next
      case True
      with Some show ?thesis
        by (simp add: get_children_def Cons.IH split: option.splits)
    qed
  qed
qed

lemma walkB_nat:
  "walkB (map (\<lambda>i. Num (of_nat i)) p) cur tgt =
     Inr (if p = [] then tgt else case cur of None \<Rightarrow> None | Some ls \<Rightarrow> nodeAt ls p)"
proof (induction p arbitrary: cur tgt)
  case Nil
  show ?case by simp
next
  case (Cons i p)
  show ?case
  proof (cases cur)
    case None
    then show ?thesis by simp
  next
    case (Some ls)
    show ?thesis
    proof (cases "i < length ls")
      case False
      with Some show ?thesis by simp
    next
      case True
      with Some show ?thesis
        by (simp add: get_children_def Cons.IH split: option.splits)
    qed
  qed
qed

lemma findLayerByPathA_pathId:
  assumes "p \<noteq> []"
  shows "findLayerByPathA psd (pathIdA [] p) =
           Inr (case psd_children psd of None \<Rightarrow> None | Some ls \<Rightarrow> nodeAt ls p)"
proof -
  have "map Number (map toString p) = map (\<lambda>i. Num (of_nat i)) p"
    by (simp add: Number_toString)
  then show ?thesis
    using assms
    by (simp add: findLayerByPathA_def pathIdA_not_Nil split_pathIdA_root walkA_nat
        del: map_map)
qed


lemma split_idB:
  "split_on CHR ''-'' (idB parentId i) = split_on CHR ''-'' parentId @ [toString i]"
  using split_on_append [of "CHR ''-''" parentId "toString i"]
  by (simp add: idB_def split_on_no_sep toString_no_sep dash_not_digit)

lemma split_pathIdB:
  "split_on CHR ''-'' (pathIdB parentId p) = split_on CHR ''-'' parentId @ map toString p"
proof (induction p arbitrary: parentId)
  case Nil
  show ?case by (simp add: pathIdB_def)
next
  case (Cons i p)
  from Cons.IH [of "idB parentId i"] show ?case by (simp add: pathIdB_def split_idB)
qed

lemma pathIdB_not_Nil: "parentId \<noteq> [] \<Longrightarrow> pathIdB parentId p \<noteq> []"
  by (induction p arbitrary: parentId) (simp_all add: pathIdB_def idB_def)

lemma findLayerByPathB_pathId:
  assumes "p \<noteq> []"
  shows "findLayerByPathB psd (pathIdB ''root'' p) =
           Inr (case psd_children psd of None \<Rightarrow> None | Some ls \<Rightarrow> nodeAt ls p)"
proof -
  have m: "map parseInt10 (map toString p) = map (\<lambda>i. Num (of_nat i)) p"
    by (simp add: parseInt10_toString)
  have r: "split_on CHR ''-'' ''root'' = [''root'']" by simp
  have "pathIdB ''root'' p \<noteq> []" by (rule pathIdB_not_Nil) simp
  then show ?thesis
    using assms
    by (simp add: findLayerByPathB_def split_pathIdB r m walkB_nat del: map_map split_on.simps)
qed

lemma sl_nodes_Cons:
  "sl_nodes (n # rest) = n # (case sl_children n of None \<Rightarrow> [] | Some cs \<Rightarrow> sl_nodes cs) @ sl_nodes rest"
  by (cases n) simp

lemma sl_id_nodeA [simp]: "sl_id (nodeA c i p kids) = p"
  by (simp add: nodeA_def Let_def)

lemma sl_children_nodeA [simp]: "sl_children (nodeA c i p kids) = kids"
  by (simp add: nodeA_def Let_def)

lemma sl_id_nodeB [simp]: "sl_id (nodeB c i p kids) = p"
  by (simp add: nodeB_def)

lemma sl_children_nodeB [simp]: "sl_children (nodeB c i p kids) = kids"
  by (simp add: nodeB_def)

lemma forEachA_nodes:
  "n \<in> set (sl_nodes (forEachA k ls path)) \<Longrightarrow>
   \<exists>j q l. nodeAt ls (j # q) = Some l \<and> sl_id n = pathIdA path ((k + j) # q)
           \<and> derivedA n l (last ((k + j) # q))"
proof (induction k ls path arbitrary: n rule: forEachA.induct)
  case (1 index path)
  then show ?case by simp
next
  case (2 index name tp lf bt rt hid opa cnv kids rest path)
  let ?child = "Layer name tp lf bt rt hid opa cnv kids"
  let ?cp = "currentPathA path index"
  have shift: "\<exists>j q l. nodeAt (?child # rest) (j # q) = Some l
                 \<and> sl_id n = pathIdA path ((index + j) # q)
                 \<and> derivedA n l (last ((index + j) # q))"
    if "\<exists>j q l. nodeAt rest (j # q) = Some l \<and> sl_id n = pathIdA path ((Suc index + j) # q)
                 \<and> derivedA n l (last ((Suc index + j) # q))"
  proof -
    from that obtain j q l where h: "nodeAt rest (j # q) = Some l"
      "sl_id n = pathIdA path ((Suc index + j) # q)" "derivedA n l (last ((Suc index + j) # q))"
      by blast
    have "nodeAt (?child # rest) (Suc j # q) = Some l" using h(1) by (simp split: if_splits)
    moreover have "sl_id n = pathIdA path ((index + Suc j) # q)" using h(2) by simp
    moreover have "derivedA n l (last ((index + Suc j) # q))" using h(3) by simp
    ultimately show ?thesis by blast
  qed
  show ?case
  proof (cases "name = Some ''!!TEMPLATE''")
    case True
    with 2 have "n \<in> set (sl_nodes (forEachA (Suc index) rest path))" by simp
    from "2.IH"(1) [OF True this] show ?thesis by (rule shift)
  next
    case False
    let ?ks = "case kids of None \<Rightarrow> None | Some cs \<Rightarrow> Some (forEachA 0 cs ?cp)"
    let ?node = "nodeA ?child index ?cp ?ks"
    from "2.prems" False
    consider (head) "n = ?node"
      | (inner) cs where "kids = Some cs" "n \<in> set (sl_nodes (forEachA 0 cs ?cp))"
      | (later) "n \<in> set (sl_nodes (forEachA (Suc index) rest path))"
      by (auto simp: sl_nodes_Cons split: option.splits)
    then show ?thesis
    proof cases
      case head
      have "nodeAt (?child # rest) (0 # []) = Some ?child" by simp
      moreover have "sl_id n = pathIdA path ((index + 0) # [])" using head by (simp add: pathIdA_def)
      moreover have "derivedA n ?child (last ((index + 0) # []))"
        using head by (cases kids) (simp_all add: derivedA_def getCleanLayerTreeA_def)
      ultimately show ?thesis by blast
    next
      case inner
      from "2.IH"(2) [OF False inner(1) inner(2)]
      obtain j q l where h: "nodeAt cs (j # q) = Some l" "sl_id n = pathIdA ?cp ((0 + j) # q)"
        "derivedA n l (last ((0 + j) # q))" by blast
      have "nodeAt (?child # rest) (0 # j # q) = Some l" using h(1) inner(1) by simp
      moreover have "sl_id n = pathIdA path ((index + 0) # j # q)" using h(2) by (simp add: pathIdA_def)
      moreover have "derivedA n l (last ((index + 0) # j # q))" using h(3) by simp
      ultimately show ?thesis by blast
    next
      case later
      from "2.IH"(3) [OF False later] show ?thesis by (rule shift)
    qed
  qed
qed


lemma mapB_nodes:
  "n \<in> set (sl_nodes (mapB k ls parentId)) \<Longrightarrow>
   \<exists>j q l. nodeAt ls (j # q) = Some l \<and> sl_id n = pathIdB parentId ((k + j) # q)
           \<and> derivedB n l (last ((k + j) # q))"
proof (induction k ls parentId arbitrary: n rule: mapB.induct)
  case (1 index parentId)
  then show ?case by simp
next
  case (2 index name tp lf bt rt hid opa cnv kids rest parentId)
  let ?child = "Layer name tp lf bt rt hid opa cnv kids"
  let ?cp = "idB parentId index"
  let ?ks = "case kids of None \<Rightarrow> None | Some cs \<Rightarrow> Some (mapB 0 cs ?cp)"
  let ?node = "nodeB ?child index ?cp ?ks"
  from "2.prems"
  consider (head) "n = ?node"
    | (inner) cs where "kids = Some cs" "n \<in> set (sl_nodes (mapB 0 cs ?cp))"
    | (later) "n \<in> set (sl_nodes (mapB (Suc index) rest parentId))"
    by (auto simp: sl_nodes_Cons split: option.splits)
  then show ?case
  proof cases
    case head
    have "nodeAt (?child # rest) (0 # []) = Some ?child" by simp
    moreover have "sl_id n = pathIdB parentId ((index + 0) # [])" using head by (simp add: pathIdB_def)
    moreover have "derivedB n ?child (last ((index + 0) # []))"
      using head by (cases kids) (simp_all add: derivedB_def getCleanLayerTreeB_def)
    ultimately show ?thesis by blast
  next
    case inner
    from "2.IH"(1) [OF inner(1) inner(2)]
    obtain j q l where h: "nodeAt cs (j # q) = Some l" "sl_id n = pathIdB ?cp ((0 + j) # q)"
      "derivedB n l (last ((0 + j) # q))" by blast
    have "nodeAt (?child # rest) (0 # j # q) = Some l" using h(1) inner(1) by simp
    moreover have "sl_id n = pathIdB parentId ((index + 0) # j # q)" using h(2) by (simp add: pathIdB_def)
    moreover have "derivedB n l (last ((index + 0) # j # q))" using h(3) by simp
    ultimately show ?thesis by blast
  next
    case later
    from "2.IH"(2) [OF later]
    obtain j q l where h: "nodeAt rest (j # q) = Some l"
      "sl_id n = pathIdB parentId ((Suc index + j) # q)" "derivedB n l (last ((Suc index + j) # q))"
      by blast
    have "nodeAt (?child # rest) (Suc j # q) = Some l" using h(1) by (simp split: if_splits)
    moreover have "sl_id n = pathIdB parentId ((index + Suc j) # q)" using h(2) by simp
    moreover have "derivedB n l (last ((index + Suc j) # q))" using h(3) by simp
    ultimately show ?thesis by blast
  qed
qed

subsection \<open>The first resolver never throws, and finds only what the path names\<close>

text \<open>
  An array read \<^verbatim>\<open>xs[k]\<close> gives an element only for a natural number \<open>k\<close> below the
  length. The loop of the first listing returns \<^verbatim>\<open>null\<close> as soon as such a read gives
  nothing, so it returns a node only when every segment of the id decodes to a natural
  number and those numbers are a path of the tree. It returns \<^verbatim>\<open>null\<close> for the empty id,
  for an id with a segment that is no numeric literal, and for an id of decimal indices
  that name no node. (For \<^verbatim>\<open>Number\<close> an empty or blank segment is the number 0, and
  \<^verbatim>\<open>0x10\<close> is 16: such segments are indices.)
\<close>

lemma js_index_SomeD:
  "js_index ls k = Some x \<Longrightarrow> \<exists>i. k = Num (of_nat i) \<and> i < length ls \<and> x = ls ! i"
proof (cases k)
  case (Num q)
  assume a: "js_index ls k = Some x"
  with Num have h: "of_int \<lfloor>q\<rfloor> = q" "0 \<le> q" "nat \<lfloor>q\<rfloor> < length ls" "x = ls ! nat \<lfloor>q\<rfloor>"
    by (auto split: if_splits)
  have "0 \<le> \<lfloor>q\<rfloor>" using h(2) by simp
  then have "of_nat (nat \<lfloor>q\<rfloor>) = (of_int \<lfloor>q\<rfloor> :: rat)" by simp
  also have "\<dots> = q" by (rule h(1))
  finally have e: "Num (of_nat (nat \<lfloor>q\<rfloor>)) = k" using Num by simp
  show ?thesis
  proof (intro exI conjI)
    show "k = Num (of_nat (nat \<lfloor>q\<rfloor>))" by (rule e [symmetric])
    show "nat \<lfloor>q\<rfloor> < length ls" by (rule h(3))
    show "x = ls ! nat \<lfloor>q\<rfloor>" by (rule h(4))
  qed
qed simp_all

lemma walkA_Inr: "\<exists>r. walkA ks cur tgt = Inr r"
proof (induction ks arbitrary: cur tgt)
  case Nil
  show ?case by simp
next
  case (Cons k ks)
  show ?case
  proof (cases cur)
    case None
    then show ?thesis by simp
  next
    case (Some ls)
    show ?thesis
    proof (cases "js_index ls k")
      case None
      with Some show ?thesis by simp
    next
      case (Some x)
      with \<open>cur = Some ls\<close> Cons.IH [of "l_children x" "Some x"] show ?thesis
        by (simp add: get_children_def)
    qed
  qed
qed

lemma walkA_SomeD:
  "walkA ks cur tgt = Inr (Some l) \<Longrightarrow> ks \<noteq> [] \<Longrightarrow>
   \<exists>p ls. p \<noteq> [] \<and> ks = map (\<lambda>i. Num (of_nat i)) p \<and> cur = Some ls \<and> nodeAt ls p = Some l"
proof (induction ks arbitrary: cur tgt)
  case Nil
  then show ?case by simp
next
  case (Cons k ks)
  from Cons.prems(1) obtain ls where cur: "cur = Some ls" by (cases cur) auto
  from Cons.prems(1) cur obtain x where x: "js_index ls k = Some x"
    by (cases "js_index ls k") auto
  from js_index_SomeD [OF x] obtain i where i: "k = Num (of_nat i)" "i < length ls" "x = ls ! i"
    by blast
  from Cons.prems(1) cur x have w: "walkA ks (l_children x) (Some x) = Inr (Some l)"
    by (simp add: get_children_def)
  show ?case
  proof (cases "ks = []")
    case True
    with w have "l = x" by simp
    with i cur True show ?thesis by (intro exI [of _ "[i]"] exI [of _ ls]) simp
  next
    case False
    from Cons.IH [OF w False] obtain p cs where
      p: "p \<noteq> []" "ks = map (\<lambda>i. Num (of_nat i)) p" "l_children x = Some cs" "nodeAt cs p = Some l"
      by blast
    with i cur show ?thesis by (intro exI [of _ "i # p"] exI [of _ ls]) simp
  qed
qed

lemma findLayerByPathA_total: "\<exists>r. findLayerByPathA psd pathId = Inr r"
  by (simp add: findLayerByPathA_def walkA_Inr)

lemma findLayerByPathA_found:
  assumes "findLayerByPathA psd pathId = Inr (Some l)"
  shows "pathId \<noteq> [] \<and>
         (\<exists>p ls. p \<noteq> [] \<and> map Number (split_on CHR ''.'' pathId) = map (\<lambda>i. Num (of_nat i)) p
                \<and> psd_children psd = Some ls \<and> nodeAt ls p = Some l)"
proof -
  from assms have ne: "pathId \<noteq> []" by (auto simp: findLayerByPathA_def split: if_splits)
  with assms have w: "walkA (map Number (split_on CHR ''.'' pathId)) (psd_children psd) None = Inr (Some l)"
    by (simp add: findLayerByPathA_def)
  have "map Number (split_on CHR ''.'' pathId) \<noteq> []" by (simp add: split_on_not_Nil)
  from walkA_SomeD [OF w this] ne show ?thesis by blast
qed

lemma findLayerByPathA_not_found:
  assumes "pathId = [] \<or> NaN \<in> set (map Number (split_on CHR ''.'' pathId))
           \<or> (\<exists>p. p \<noteq> [] \<and> split_on CHR ''.'' pathId = map toString p
                  \<and> nodeAt (topLevel psd) p = None)"
  shows "findLayerByPathA psd pathId = Inr None"
proof -
  obtain r where r: "findLayerByPathA psd pathId = Inr r" using findLayerByPathA_total by blast
  show ?thesis
  proof (cases r)
    case None
    with r show ?thesis by simp
  next
    case (Some l)
    from findLayerByPathA_found [OF r [unfolded Some]] obtain q ls where
      h: "pathId \<noteq> []" "q \<noteq> []" "map Number (split_on CHR ''.'' pathId) = map (\<lambda>i. Num (of_nat i)) q"
         "psd_children psd = Some ls" "nodeAt ls q = Some l" by blast
    have nn: "NaN \<notin> set (map Number (split_on CHR ''.'' pathId))" unfolding h(3) by auto
    with assms h(1) obtain p where
      p: "p \<noteq> []" "split_on CHR ''.'' pathId = map toString p" "nodeAt (topLevel psd) p = None"
      by blast
    have "map Number (map toString p) = map (\<lambda>i. Num (of_nat i)) p"
      by (simp add: Number_toString)
    with h(3) p(2) have "map (\<lambda>i. Num (of_nat i) :: jsnum) q = map (\<lambda>i. Num (of_nat i)) p"
      by simp
    moreover have "inj (\<lambda>i. Num (of_nat i) :: jsnum)" by (auto simp: inj_on_def)
    ultimately have "q = p" by (simp add: inj_map_eq_map)
    with h(4,5) p(3) show ?thesis by (simp add: topLevel_def)
  qed
qed

subsection \<open>The painting loops\<close>

text \<open>The loop with its counter is the fold of the loop body over the reversed list.\<close>

lemma rev_take_Suc: "i < length xs \<Longrightarrow> rev (take (Suc i) xs) = xs ! i # rev (take i xs)"
  by (simp add: take_Suc_conv_app_nth)

lemma drawLayersA_loop_fold:
  "n \<le> length layers \<Longrightarrow>
   drawLayersA_loop payload psd layers n ctx = foldE (drawLayerA payload psd) (rev (take n layers)) ctx"
proof (induction n arbitrary: ctx)
  case 0
  show ?case by simp
next
  case (Suc n)
  then have lt: "n < length layers" and le: "n \<le> length layers" by simp_all
  show ?case
    using Suc.IH [OF le] lt
    by (simp add: rev_take_Suc del: take_Suc split: sum.splits)
qed

lemma drawLayersB_loop_fold:
  "n \<le> length layers \<Longrightarrow>
   drawLayersB_loop psd tx ty layers n ctx = foldE (drawLayerB psd tx ty) (rev (take n layers)) ctx"
proof (induction n arbitrary: ctx)
  case 0
  show ?case by simp
next
  case (Suc n)
  then have lt: "n < length layers" and le: "n \<le> length layers" by simp_all
  show ?case
    using Suc.IH [OF le] lt
    by (simp add: rev_take_Suc del: take_Suc split: sum.splits)
qed

lemma drawLayersA_loop_all:
  "drawLayersA_loop payload psd kids (length kids) ctx = foldE (drawLayerA payload psd) (rev kids) ctx"
  by (simp add: drawLayersA_loop_fold)

lemma drawLayersB_loop_all:
  "drawLayersB_loop psd tx ty kids (length kids) ctx = foldE (drawLayerB psd tx ty) (rev kids) ctx"
  by (simp add: drawLayersB_loop_fold)

lemma drawLayersA_fold:
  "drawLayersA payload psd layers ctx = foldE (drawLayerA payload psd) (rev layers) ctx"
  by (simp add: drawLayersA_def drawLayersA_loop_fold)

lemma drawLayersB_fold:
  "drawLayersB psd tx ty layers ctx = foldE (drawLayerB psd tx ty) (rev layers) ctx"
  by (simp add: drawLayersB_def drawLayersB_loop_fold)


lemma drawLayerA_unfold:
  "drawLayerA payload psd layer ctx =
       (if culled (target_w payload) (target_h payload) layer then Inr ctx
        else if \<not> tl_isVisible layer then Inr ctx
        else
          (case (if tl_type layer = KGroup \<and> tl_children layer \<noteq> None
                 then foldE (drawLayerA payload psd) (rev (the (tl_children layer))) (ctx @ [Save])
                 else if tl_type layer = KGenerative
                 then Inr (generativeA payload layer (ctx @ [Save]))
                 else pixelA psd layer (ctx @ [Save])) of
             Inl e \<Rightarrow> Inl e
           | Inr ctx' \<Rightarrow> Inr (ctx' @ [Restore])))"
  by (subst drawLayerA.simps) (auto simp: drawLayersA_loop_all)

lemma drawLayerB_unfold:
  "drawLayerB psd tx ty layer ctx =
       (if \<not> tl_isVisible layer then Inr ctx
        else
          (case (if tl_type layer = KGenerative then Inr (generativeB tx ty layer ctx)
                 else if tl_type layer \<noteq> KGroup then pixelB psd tx ty layer ctx
                 else Inr ctx) of
             Inl e \<Rightarrow> Inl e
           | Inr ctx' \<Rightarrow>
               (case tl_children layer of
                  None \<Rightarrow> Inr ctx'
                | Some kids \<Rightarrow> foldE (drawLayerB psd tx ty) (rev kids) ctx')))"
  by (subst drawLayerB.simps) (simp add: drawLayersB_loop_all split: sum.splits option.splits)

text \<open>What a layer paints does not depend on what is on the surface already: the calls
  it makes are appended to the calls made before.\<close>

lemma after_Nil [simp]: "after [] r = r"
  by (cases r) (simp_all add: after_def)

lemma after_Inr [simp]: "after ctx (Inr cs) = Inr (ctx @ cs)"
  by (simp add: after_def)

lemma after_Inl [simp]: "after ctx (Inl e) = Inl e"
  by (simp add: after_def)

lemma after_after: "after a (after b r) = after (a @ b) r"
  by (cases r) simp_all

lemma foldE_trace:
  assumes "\<And>x c. x \<in> set xs \<Longrightarrow> f x c = after c (f x [])"
  shows "foldE f xs ctx = after ctx (traceE (\<lambda>x. f x []) xs)"
  using assms
proof (induction xs arbitrary: ctx)
  case Nil
  show ?case by simp
next
  case (Cons x xs)
  have fx: "f x ctx = after ctx (f x [])" by (rule Cons.prems) simp
  have ih: "foldE f xs c = after c (traceE (\<lambda>x. f x []) xs)" for c
    by (rule Cons.IH) (rule Cons.prems, simp)
  show ?case
  proof (cases "f x []")
    case (Inl e)
    with fx show ?thesis by simp
  next
    case (Inr cs)
    with fx ih [of "ctx @ cs"] show ?thesis
      by (cases "traceE (\<lambda>x. f x []) xs") simp_all
  qed
qed

lemma drawImage_after: "drawImage (ctx @ xs) src a b c d = after ctx (drawImage xs src a b c d)"
  by (simp add: drawImage_def)

lemma generativeA_after: "generativeA payload layer (ctx @ xs) = ctx @ generativeA payload layer xs"
  by (simp add: generativeA_def Let_def)

lemma generativeB_after: "generativeB tx ty layer (ctx @ xs) = ctx @ generativeB tx ty layer xs"
  by (simp add: generativeB_def Let_def)

lemma pixelA_after: "pixelA psd layer (ctx @ xs) = after ctx (pixelA psd layer xs)"
  by (simp add: pixelA_def Let_def drawImage_def split: sum.splits option.splits)

lemma pixelB_after: "pixelB psd tx ty layer (ctx @ xs) = after ctx (pixelB psd tx ty layer xs)"
  by (simp add: pixelB_def Let_def drawImage_def split: sum.splits option.splits)

lemma drawLayerA_after: "drawLayerA payload psd layer ctx = after ctx (drawLayerA payload psd layer [])"
proof (induction layer arbitrary: ctx)
  case (TransformedLayer ident kind vis opa co rot kids)
  define l where "l = TransformedLayer ident kind vis opa co rot kids"
  have kl: "tl_children l = kids" by (simp add: l_def)
  have ih: "drawLayerA payload psd k c = after c (drawLayerA payload psd k [])"
    if "kids = Some ks" "k \<in> set ks" for ks k c
  proof (rule TransformedLayer.IH)
    show "ks \<in> set_option kids" using that(1) by simp
    show "k \<in> set ks" by (rule that(2))
  qed
  have grp: "foldE (drawLayerA payload psd) (rev ks) (c @ [Save])
             = after c (foldE (drawLayerA payload psd) (rev ks) [Save])" if "kids = Some ks" for ks c
  proof -
    have "foldE (drawLayerA payload psd) (rev ks) c'
          = after c' (traceE (\<lambda>x. drawLayerA payload psd x []) (rev ks))" for c'
    proof (rule foldE_trace)
      fix x c
      assume "x \<in> set (rev ks)"
      then have "x \<in> set ks" by simp
      then show "drawLayerA payload psd x c = after c (drawLayerA payload psd x [])"
        by (rule ih [OF that])
    qed
    then have "foldE (drawLayerA payload psd) (rev ks) (c @ [Save])
          = after (c @ [Save]) (traceE (\<lambda>x. drawLayerA payload psd x []) (rev ks))"
      and "foldE (drawLayerA payload psd) (rev ks) [Save]
          = after [Save] (traceE (\<lambda>x. drawLayerA payload psd x []) (rev ks))"
      by blast+
    then show ?thesis by (simp only: after_after)
  qed
  have pa: "pixelA psd l (ctx @ [Save]) = after ctx (pixelA psd l [Save])"
    by (rule pixelA_after)
  have ga: "generativeA payload l (ctx @ [Save]) = ctx @ generativeA payload l [Save]"
    by (rule generativeA_after)
  note unf = drawLayerA_unfold [of payload psd l ctx] drawLayerA_unfold [of payload psd l "[]"]
  have "drawLayerA payload psd l ctx = after ctx (drawLayerA payload psd l [])"
  proof (cases kids)
    case None
    show ?thesis
      unfolding unf by (simp add: kl None pa ga after_def split: sum.splits)
  next
    case (Some ks)
    show ?thesis
      unfolding unf by (simp add: kl Some pa ga grp [OF Some] after_def split: sum.splits)
  qed
  then show ?case by (simp only: l_def)
qed


lemma drawLayerB_after: "drawLayerB psd tx ty layer ctx = after ctx (drawLayerB psd tx ty layer [])"
proof (induction layer arbitrary: ctx)
  case (TransformedLayer ident kind vis opa co rot kids)
  define l where "l = TransformedLayer ident kind vis opa co rot kids"
  have kl: "tl_children l = kids" by (simp add: l_def)
  have ih: "drawLayerB psd tx ty k c = after c (drawLayerB psd tx ty k [])"
    if "kids = Some ks" "k \<in> set ks" for ks k c
  proof (rule TransformedLayer.IH)
    show "ks \<in> set_option kids" using that(1) by simp
    show "k \<in> set ks" by (rule that(2))
  qed
  have grp: "foldE (drawLayerB psd tx ty) (rev ks) (c @ d)
             = after c (foldE (drawLayerB psd tx ty) (rev ks) d)" if "kids = Some ks" for ks c d
  proof -
    have "foldE (drawLayerB psd tx ty) (rev ks) c'
          = after c' (traceE (\<lambda>x. drawLayerB psd tx ty x []) (rev ks))" for c'
    proof (rule foldE_trace)
      fix x c
      assume "x \<in> set (rev ks)"
      then have "x \<in> set ks" by simp
      then show "drawLayerB psd tx ty x c = after c (drawLayerB psd tx ty x [])"
        by (rule ih [OF that])
    qed
    then have "foldE (drawLayerB psd tx ty) (rev ks) (c @ d)
          = after (c @ d) (traceE (\<lambda>x. drawLayerB psd tx ty x []) (rev ks))"
      and "foldE (drawLayerB psd tx ty) (rev ks) d
          = after d (traceE (\<lambda>x. drawLayerB psd tx ty x []) (rev ks))"
      by blast+
    then show ?thesis by (simp only: after_after)
  qed
  have pb: "pixelB psd tx ty l ctx = after ctx (pixelB psd tx ty l [])"
    using pixelB_after [of psd tx ty l ctx "[]"] by simp
  have gb: "generativeB tx ty l ctx = ctx @ generativeB tx ty l []"
    using generativeB_after [of tx ty l ctx "[]"] by simp
  note unf = drawLayerB_unfold [of psd tx ty l ctx] drawLayerB_unfold [of psd tx ty l "[]"]
  have "drawLayerB psd tx ty l ctx = after ctx (drawLayerB psd tx ty l [])"
  proof (cases kids)
    case None
    show ?thesis
      unfolding unf by (simp add: kl None pb gb after_def split: sum.splits)
  next
    case (Some ks)
    have g0: "foldE (drawLayerB psd tx ty) (rev ks) ctx
              = after ctx (foldE (drawLayerB psd tx ty) (rev ks) [])"
      using grp [OF Some, of ctx "[]"] by simp
    show ?thesis
      unfolding unf
      by (simp add: kl Some pb gb grp [OF Some] g0 after_def split: sum.splits)
  qed
  then show ?case by (simp only: l_def)
qed

lemma drawLayersA_trace:
  "drawLayersA payload psd layers ctx
   = after ctx (traceE (\<lambda>l. drawLayerA payload psd l []) (rev layers))"
  unfolding drawLayersA_fold by (rule foldE_trace) (rule drawLayerA_after)

lemma drawLayersB_trace:
  "drawLayersB psd tx ty layers ctx
   = after ctx (traceE (\<lambda>l. drawLayerB psd tx ty l []) (rev layers))"
  unfolding drawLayersB_fold by (rule foldE_trace) (rule drawLayerB_after)

text \<open>The first listing never throws: the resolver does not, and the exception of
  \<^verbatim>\<open>drawImage\<close> is caught where it is raised.\<close>

lemma pixelA_Inr: "\<exists>c. pixelA psd layer ctx = Inr c"
proof -
  obtain r where r: "findLayerByPathA psd (tl_id layer) = Inr r"
    using findLayerByPathA_total by blast
  show ?thesis
    by (simp add: pixelA_def r Let_def split: option.splits sum.splits)
qed

lemma drawA_Inr:
  shows "\<exists>c. drawLayerA payload psd layer ctx = Inr c"
    and "n \<le> length layers \<Longrightarrow> \<exists>c. drawLayersA_loop payload psd layers n ctx = Inr c"
proof (induction payload psd layer ctx and payload psd layers n ctx
    rule: drawLayerA_drawLayersA_loop.induct)
  case (1 payload psd layer ctx)
  show ?case
  proof (cases "culled (target_w payload) (target_h payload) layer \<or> \<not> tl_isVisible layer")
    case True
    then show ?thesis by (subst drawLayerA.simps) auto
  next
    case False
    show ?thesis
    proof (cases "tl_type layer = KGroup \<and> tl_children layer \<noteq> None")
      case True
      with False 1 obtain c where
        "drawLayersA_loop payload psd (the (tl_children layer)) (length (the (tl_children layer))) (ctx @ [Save]) = Inr c"
        by auto
      with True False show ?thesis by (subst drawLayerA.simps) auto
    next
      case ng: False
      obtain c where c: "pixelA psd layer (ctx @ [Save]) = Inr c" using pixelA_Inr by blast
      with ng False show ?thesis by (subst drawLayerA.simps) auto
    qed
  qed
next
  case (2 payload psd layers ctx)
  show ?case by simp
next
  case (3 payload psd layers i ctx)
  from "3.prems" have lt: "i < length layers" by simp
  from "3.IH"(1) [OF lt] obtain c where c: "drawLayerA payload psd (layers ! i) ctx = Inr c" by blast
  from "3.IH"(2) [OF lt c] lt obtain c' where "drawLayersA_loop payload psd layers i c = Inr c'" by auto
  with lt c show ?case by simp
qed

lemma compositeA_total: "\<exists>r. compositePayloadToCanvasA has2d payload psd = Inr r"
proof (cases payload)
  case None
  then show ?thesis by (simp add: compositePayloadToCanvasA_def)
next
  case (Some pl)
  show ?thesis
  proof (cases psd)
    case None
    with Some show ?thesis by (simp add: compositePayloadToCanvasA_def)
  next
    case (Some ps)
    obtain c where "drawLayersA pl ps (p_layers pl)
        [SetFillStyle (Color ''#0f172a''), FillRect 0 0 (target_w pl) (target_h pl)] = Inr c"
      unfolding drawLayersA_def using drawA_Inr(2) [of "length (p_layers pl)" "p_layers pl"] by blast
    with Some \<open>payload = Some pl\<close> show ?thesis by (simp add: compositePayloadToCanvasA_def)
  qed
qed

text \<open>The second listing returns \<^verbatim>\<open>null\<close> for a target without area.\<close>

lemma compositeB_non_positive:
  "target_w payload \<le> 0 \<or> target_h payload \<le> 0 \<Longrightarrow>
   compositePayloadToCanvasB has2d payload psd = Inr None"
  by (simp add: compositePayloadToCanvasB_def)


text \<open>What one layer paints on a clean surface in the first listing, and the whole loop
  in those terms: every sibling's calls are on the surface, the last sibling's first.\<close>

lemma traceE_total:
  assumes "\<And>x. x \<in> set xs \<Longrightarrow> \<exists>cs. f x = Inr cs"
  shows "traceE f xs = Inr (concat (map (\<lambda>x. case f x of Inl e \<Rightarrow> [] | Inr cs \<Rightarrow> cs) xs))"
  using assms
proof (induction xs)
  case Nil
  show ?case by simp
next
  case (Cons x xs)
  obtain cs where cs: "f x = Inr cs" using Cons.prems [of x] by auto
  have "traceE f xs = Inr (concat (map (\<lambda>x. case f x of Inl e \<Rightarrow> [] | Inr cs \<Rightarrow> cs) xs))"
    by (rule Cons.IH) (rule Cons.prems, simp)
  with cs show ?case by simp
qed

lemma drawLayersA_paints_all:
  "drawLayersA payload psd layers ctx
   = Inr (ctx @ concat (map (paintedA payload psd) (rev layers)))"
proof -
  have "traceE (\<lambda>l. drawLayerA payload psd l []) (rev layers)
        = Inr (concat (map (\<lambda>x. case drawLayerA payload psd x [] of Inl e \<Rightarrow> [] | Inr cs \<Rightarrow> cs)
                           (rev layers)))"
    by (rule traceE_total) (rule drawA_Inr(1))
  then show ?thesis
    unfolding drawLayersA_trace paintedA_def by simp
qed

text \<open>The whole compositor in those terms: the top-level siblings are the layers of the
  payload.\<close>

lemma compositePayloadToCanvasA_trace:
  "compositePayloadToCanvasA has2d (Some pl) (Some ps) =
     (if \<not> has2d then Inr None
      else case traceE (\<lambda>l. drawLayerA pl ps l []) (rev (p_layers pl)) of
             Inl e \<Rightarrow> Inl e
           | Inr cs \<Rightarrow>
               Inr (Some (DataURL ''image/jpeg'' (Some (9 / 10))
                            (reflectUnsignedLong (target_w pl) 300)
                            (reflectUnsignedLong (target_h pl) 150)
                            ([SetFillStyle (Color ''#0f172a''),
                              FillRect 0 0 (target_w pl) (target_h pl)] @ cs))))"
  by (simp add: compositePayloadToCanvasA_def drawLayersA_trace after_def split: sum.splits)

lemma compositePayloadToCanvasA_paints_all:
  "compositePayloadToCanvasA True (Some pl) (Some ps) =
     Inr (Some (DataURL ''image/jpeg'' (Some (9 / 10))
                  (reflectUnsignedLong (target_w pl) 300)
                  (reflectUnsignedLong (target_h pl) 150)
                  ([SetFillStyle (Color ''#0f172a''), FillRect 0 0 (target_w pl) (target_h pl)]
                   @ concat (map (paintedA pl ps) (rev (p_layers pl))))))"
  by (simp add: compositePayloadToCanvasA_def drawLayersA_paints_all)

lemma compositePayloadToCanvasB_trace:
  "compositePayloadToCanvasB has2d payload psd =
     (if target_w payload \<le> 0 \<or> target_h payload \<le> 0 then Inr None
      else if \<not> has2d then Inr None
      else case traceE (\<lambda>l. drawLayerB psd (orZeroR (target_x payload)) (orZeroR (target_y payload)) l [])
                       (rev (p_layers payload)) of
             Inl e \<Rightarrow> Inl e
           | Inr cs \<Rightarrow>
               Inr (Some (DataURL ''image/png'' None
                            (reflectUnsignedLong (target_w payload) 300)
                            (reflectUnsignedLong (target_h payload) 150) cs)))"
  by (simp add: compositePayloadToCanvasB_def drawLayersB_trace after_def split: sum.splits)
subsection \<open>The extractor's loops\<close>



text \<open>The children the extractor walks, read off the document.\<close>

lemma templateChildren_document:
  "psd_children psd = Some cs \<Longrightarrow> find (\<lambda>c. l_name c = Some ''!!TEMPLATE'') cs = Some g \<Longrightarrow>
   l_children g = Some kids \<Longrightarrow> templateChildren psd = kids"
  by (simp add: templateChildren_def templateGroup_def)

lemma nth_eachContainerA:
  "i < length cs \<Longrightarrow> eachContainerA k cs cw ch ! i = containerA (cs ! i) (k + i) cw ch"
proof (induction cs arbitrary: k i)
  case Nil
  then show ?case by simp
next
  case (Cons c cs)
  then show ?case by (cases i) simp_all
qed

lemma nth_eachContainerB:
  "i < length cs \<Longrightarrow> eachContainerB k cs cw ch ! i = containerB (cs ! i) (k + i) cw ch"
proof (induction cs arbitrary: k i)
  case Nil
  then show ?case by simp
next
  case (Cons c cs)
  then show ?case by (cases i) simp_all
qed

text \<open>Position by position the two listings agree on the name and the original name,
  unless the first listing's original name is its default.\<close>

lemma names_agree_or_default:
  "list_all2 (\<lambda>a b. (c_name a = c_name b \<and> c_originalName a = c_originalName b)
                       \<or> c_originalName a = ''Untitled'')
     (eachContainerA k cs cw ch) (eachContainerB k cs cw ch)"
  by (induction cs arbitrary: k) (auto simp: containerA_def containerB_def Let_def orElse_def
      split: option.splits)

lemma bounds_eachContainerA: "map c_bounds (eachContainerA k cs cw ch) = map pixelBounds cs"
  by (induction cs arbitrary: k) (simp_all add: containerA_def Let_def)

lemma bounds_eachContainerB: "map c_bounds (eachContainerB k cs cw ch) = map pixelBounds cs"
  by (induction cs arbitrary: k) (simp_all add: containerB_def Let_def)

lemma normalized_eachContainerA:
  "map c_normalized (eachContainerA k cs cw ch) = map (\<lambda>c. normalizedBounds c cw ch) cs"
  by (induction cs arbitrary: k) (simp_all add: containerA_def Let_def)

lemma normalized_eachContainerB:
  "map c_normalized (eachContainerB k cs cw ch) = map (\<lambda>c. normalizedBounds c cw ch) cs"
  by (induction cs arbitrary: k) (simp_all add: containerB_def Let_def)

lemma length_eachContainerA: "length (eachContainerA k cs cw ch) = length cs"
  by (induction cs arbitrary: k) simp_all

lemma length_eachContainerB: "length (eachContainerB k cs cw ch) = length cs"
  by (induction cs arbitrary: k) simp_all

text \<open>A child with a non-empty name gets the same name and original name in both
  listings.\<close>

lemma named_eachContainer:
  "\<forall>c \<in> set cs. l_name c \<noteq> None \<and> l_name c \<noteq> Some [] \<Longrightarrow>
   map (\<lambda>c. (c_name c, c_originalName c)) (eachContainerA k cs cw ch)
   = map (\<lambda>c. (c_name c, c_originalName c)) (eachContainerB k cs cw ch)"
  by (induction cs arbitrary: k) (auto simp: containerA_def containerB_def Let_def orElse_def)

subsection \<open>The first serializer drops every template group\<close>

lemma orElse_not_template:
  "nm \<noteq> Some ''!!TEMPLATE'' \<Longrightarrow> orElse nm (''Layer '' @ s) \<noteq> ''!!TEMPLATE''"
  by (auto simp: orElse_def split: option.splits)

lemma sl_name_nodeA [simp]: "sl_name (nodeA c i p kids) = orElse (l_name c) (''Layer '' @ toString i)"
  by (simp add: nodeA_def Let_def)

lemma forEachA_no_template:
  "n \<in> set (sl_nodes (forEachA k ls path)) \<Longrightarrow> sl_name n \<noteq> ''!!TEMPLATE''"
proof (induction k ls path arbitrary: n rule: forEachA.induct)
  case (1 index path)
  then show ?case by simp
next
  case (2 index name tp lf bt rt hid opa cnv kids rest path)
  show ?case
  proof (cases "name = Some ''!!TEMPLATE''")
    case True
    with 2 show ?thesis by simp
  next
    case False
    let ?cp = "currentPathA path index"
    let ?child = "Layer name tp lf bt rt hid opa cnv kids"
    let ?ks = "case kids of None \<Rightarrow> None | Some cs \<Rightarrow> Some (forEachA 0 cs ?cp)"
    from "2.prems" False
    consider (head) "n = nodeA ?child index ?cp ?ks"
      | (inner) cs where "kids = Some cs" "n \<in> set (sl_nodes (forEachA 0 cs ?cp))"
      | (later) "n \<in> set (sl_nodes (forEachA (Suc index) rest path))"
      by (auto simp: sl_nodes_Cons split: option.splits)
    then show ?thesis
    proof cases
      case head
      with False show ?thesis using orElse_not_template [of name "toString index"] by simp
    next
      case inner
      from "2.IH"(2) [OF False inner] show ?thesis .
    next
      case later
      from "2.IH"(3) [OF False later] show ?thesis .
    qed
  qed
qed

lemma getCleanLayerTreeA_no_template:
  "list_all (\<lambda>n. sl_name n \<noteq> ''!!TEMPLATE'') (sl_nodes (getCleanLayerTreeA layers path))"
  by (auto simp: list_all_iff getCleanLayerTreeA_def dest: forEachA_no_template)


subsection \<open>The first validator reports one issue per violating layer\<close>

lemma checkLayerA_eq:
  "checkLayerA c acc l = acc @ (if violates c l then [issueA c l] else [])"
  by (auto simp: checkLayerA_def violates_def hasBounds_def isViolation_def orZero_def Let_def
      split: option.splits)

lemma foldl_checkLayerA:
  "foldl (checkLayerA c) acc ls
   = acc @ concat (map (\<lambda>l. if violates c l then [issueA c l] else []) ls)"
  by (induction ls arbitrary: acc) (simp_all add: checkLayerA_eq)

lemma checkGroupA_eq:
  "checkGroupA (containerMap t) acc g
   = acc @ (case matching t g of
              None \<Rightarrow> []
            | Some c \<Rightarrow> concat (map (\<lambda>l. if violates c l then [issueA c l] else []) (childrenOf g)))"
  by (auto simp: checkGroupA_def matching_def childrenOf_def foldl_checkLayerA split: option.splits)

lemma foldl_checkGroupA:
  "foldl (checkGroupA (containerMap t)) acc gs
   = acc @ concat (map (\<lambda>g. case matching t g of
                              None \<Rightarrow> []
                            | Some c \<Rightarrow> concat (map (\<lambda>l. if violates c l then [issueA c l] else [])
                                                   (childrenOf g))) gs)"
proof (induction gs arbitrary: acc)
  case Nil
  show ?case by simp
next
  case (Cons g gs)
  have "foldl (checkGroupA (containerMap t)) acc (g # gs)
        = foldl (checkGroupA (containerMap t)) (checkGroupA (containerMap t) acc g) gs"
    by (simp only: foldl_Cons)
  also have "\<dots> = checkGroupA (containerMap t) acc g
        @ concat (map (\<lambda>g. case matching t g of
                              None \<Rightarrow> []
                            | Some c \<Rightarrow> concat (map (\<lambda>l. if violates c l then [issueA c l] else [])
                                                   (childrenOf g))) gs)"
    by (rule Cons.IH)
  also have "\<dots> = acc @ concat (map (\<lambda>g. case matching t g of
                              None \<Rightarrow> []
                            | Some c \<Rightarrow> concat (map (\<lambda>l. if violates c l then [issueA c l] else [])
                                                   (childrenOf g))) (g # gs))"
    by (simp add: checkGroupA_eq)
  finally show ?case .
qed

lemma found_expectedIssues:
  "(case psd_children psd of
      None \<Rightarrow> []
    | Some groups \<Rightarrow> foldl (checkGroupA (containerMap t)) [] groups) = expectedIssues psd t"
  by (cases "psd_children psd") (simp_all only: option.case expectedIssues_def topLevel_def
      foldl_checkGroupA append_Nil list.map concat.simps)

lemma mapLayersToContainersA_issues:
  "issues (mapLayersToContainersA psd t) = expectedIssues psd t
   \<and> isValid (mapLayersToContainersA psd t) = (expectedIssues psd t = [])"
  unfolding mapLayersToContainersA_def Let_def found_expectedIssues by simp

subsection \<open>C1: the address round trip\<close>

text \<open>
  Claim C1. Serializing a native tree and resolving any id the serializer produced, on
  the same tree, gives back the native node the serialized node was made from. For
  both listings: every node \<open>n\<close> of the serialized tree has a position \<open>p\<close> in the
  native tree, holding a native node \<open>l\<close>, such that the id of \<open>n\<close> is the encoding of
  \<open>p\<close>, \<open>n\<close> is the serialization of \<open>l\<close>, and the resolver called with the id of \<open>n\<close>
  returns \<open>l\<close>. The first listing is called with its default path \<^verbatim>\<open>''\<close>, the second with
  its default parent id \<^verbatim>\<open>'root'\<close>.
\<close>

theorem address_round_trip:
  "(\<forall>n \<in> set (sl_nodes (getCleanLayerTreeA layers [])).
      \<exists>p l. nodeAt layers p = Some l \<and> sl_id n = pathIdA [] p \<and> derivedA n l (last p)
            \<and> findLayerByPathA (Psd cw ch (Some layers)) (sl_id n) = Inr (Some l))
   \<and> (\<forall>n \<in> set (sl_nodes (getCleanLayerTreeB layers ''root'')).
      \<exists>p l. nodeAt layers p = Some l \<and> sl_id n = pathIdB ''root'' p \<and> derivedB n l (last p)
            \<and> findLayerByPathB (Psd cw ch (Some layers)) (sl_id n) = Inr (Some l))"
proof (intro conjI ballI)
  fix n
  assume "n \<in> set (sl_nodes (getCleanLayerTreeA layers []))"
  then obtain j q l where h: "nodeAt layers (j # q) = Some l" "sl_id n = pathIdA [] ((0 + j) # q)"
    "derivedA n l (last ((0 + j) # q))"
    unfolding getCleanLayerTreeA_def by (blast dest: forEachA_nodes)
  have "findLayerByPathA (Psd cw ch (Some layers)) (pathIdA [] (j # q)) = Inr (Some l)"
    using h(1) by (simp add: findLayerByPathA_pathId del: nodeAt.simps)
  with h show "\<exists>p l. nodeAt layers p = Some l \<and> sl_id n = pathIdA [] p \<and> derivedA n l (last p)
            \<and> findLayerByPathA (Psd cw ch (Some layers)) (sl_id n) = Inr (Some l)"
    by (intro exI [of _ "j # q"] exI [of _ l]) simp
next
  fix n
  assume "n \<in> set (sl_nodes (getCleanLayerTreeB layers ''root''))"
  then obtain j q l where h: "nodeAt layers (j # q) = Some l" "sl_id n = pathIdB ''root'' ((0 + j) # q)"
    "derivedB n l (last ((0 + j) # q))"
    unfolding getCleanLayerTreeB_def by (blast dest: mapB_nodes)
  have "findLayerByPathB (Psd cw ch (Some layers)) (pathIdB ''root'' (j # q)) = Inr (Some l)"
    using h(1) by (simp add: findLayerByPathB_pathId del: nodeAt.simps)
  with h show "\<exists>p l. nodeAt layers p = Some l \<and> sl_id n = pathIdB ''root'' p \<and> derivedB n l (last p)
            \<and> findLayerByPathB (Psd cw ch (Some layers)) (sl_id n) = Inr (Some l)"
    by (intro exI [of _ "j # q"] exI [of _ l]) simp
qed

theorem address_round_trip_witness:
  "SerializableLayer ''1.0'' ''art'' KLayer True 1 (Rect 0 (- 5) 50 55) None
     \<in> set (sl_nodes (getCleanLayerTreeA [ex_template, ex_design] []))
   \<and> (\<exists>p l. nodeAt [ex_template, ex_design] p = Some l
         \<and> sl_id (SerializableLayer ''1.0'' ''art'' KLayer True 1 (Rect 0 (- 5) 50 55) None) = pathIdA [] p
         \<and> derivedA (SerializableLayer ''1.0'' ''art'' KLayer True 1 (Rect 0 (- 5) 50 55) None) l (last p)
         \<and> findLayerByPathA (Psd None None (Some [ex_template, ex_design]))
              (sl_id (SerializableLayer ''1.0'' ''art'' KLayer True 1 (Rect 0 (- 5) 50 55) None)) = Inr (Some l))
   \<and> SerializableLayer ''root-1-0'' ''art'' KLayer True 1 (Rect 0 (- 5) 50 55) None
     \<in> set (sl_nodes (getCleanLayerTreeB [ex_template, ex_design] ''root''))
   \<and> (\<exists>p l. nodeAt [ex_template, ex_design] p = Some l
         \<and> sl_id (SerializableLayer ''root-1-0'' ''art'' KLayer True 1 (Rect 0 (- 5) 50 55) None) = pathIdB ''root'' p
         \<and> derivedB (SerializableLayer ''root-1-0'' ''art'' KLayer True 1 (Rect 0 (- 5) 50 55) None) l (last p)
         \<and> findLayerByPathB (Psd None None (Some [ex_template, ex_design]))
              (sl_id (SerializableLayer ''root-1-0'' ''art'' KLayer True 1 (Rect 0 (- 5) 50 55) None)) = Inr (Some l))
   \<and> findLayerByPathA (Psd None None (Some [ex_template, ex_design])) ''1.0'' = Inr (Some ex_art)
   \<and> findLayerByPathB (Psd None None (Some [ex_template, ex_design])) ''root-1-0'' = Inr (Some ex_art)"
proof -
  let ?L = "[ex_template, ex_design]"
  let ?a = "SerializableLayer ''1.0'' ''art'' KLayer True 1 (Rect 0 (- 5) 50 55) None"
  let ?b = "SerializableLayer ''root-1-0'' ''art'' KLayer True 1 (Rect 0 (- 5) 50 55) None"
  have a: "?a \<in> set (sl_nodes (getCleanLayerTreeA ?L []))" by code_simp
  have b: "?b \<in> set (sl_nodes (getCleanLayerTreeB ?L ''root''))" by code_simp
  have fa: "findLayerByPathA (Psd None None (Some ?L)) ''1.0'' = Inr (Some ex_art)" by code_simp
  have fb: "findLayerByPathB (Psd None None (Some ?L)) ''root-1-0'' = Inr (Some ex_art)" by code_simp
  note rt = address_round_trip [of ?L None None]
  from rt a have "\<exists>p l. nodeAt ?L p = Some l \<and> sl_id ?a = pathIdA [] p \<and> derivedA ?a l (last p)
      \<and> findLayerByPathA (Psd None None (Some ?L)) (sl_id ?a) = Inr (Some l)"
    by blast
  moreover from rt b have "\<exists>p l. nodeAt ?L p = Some l \<and> sl_id ?b = pathIdB ''root'' p \<and> derivedB ?b l (last p)
      \<and> findLayerByPathB (Psd None None (Some ?L)) (sl_id ?b) = Inr (Some l)"
    by blast
  ultimately show ?thesis using a b fa fb by blast
qed

subsection \<open>C2: the resolver on ids that name nothing\<close>

text \<open>
  Claim C2 says that \<^verbatim>\<open>findLayerByPath\<close> returns \<^verbatim>\<open>null\<close> and never throws for an empty
  id, an id with a non-numeric segment and an id with an index out of range. The first
  listing does so: \<open>findLayerByPathA_total\<close> (it never throws) and
  \<open>findLayerByPathA_not_found\<close> (it returns \<^verbatim>\<open>null\<close> for the empty id, for an id one of
  whose segments decodes to \<^verbatim>\<open>NaN\<close>, and for an id of decimal indices that name no node of
  the tree). The second listing does not: its guard \<^verbatim>\<open>idx >= currentLayers.length\<close> is false
  for \<^verbatim>\<open>NaN\<close>, the element read is \<^verbatim>\<open>undefined\<close>, and reading \<^verbatim>\<open>.children\<close> of it throws.
  On the sample document the id \<^verbatim>\<open>root-x\<close> makes the second listing throw a
  \<^verbatim>\<open>TypeError\<close>, where the first listing returns \<^verbatim>\<open>null\<close> for the id \<^verbatim>\<open>1.x\<close>.
\<close>

theorem findLayerByPathB_throws_on_non_numeric:
  "findLayerByPathB ex_psd ''root-x'' = Inl TypeError
   \<and> findLayerByPathA ex_psd ''1.x'' = Inr None"
  by code_simp

subsection \<open>C3: the validator and a layer outside its container\<close>

text \<open>
  Claim C3 says that \<^verbatim>\<open>mapLayersToContainers\<close> reports no issue for a design-group child
  inside its container and exactly one issue for a child that leaves the container on
  some edge. The first listing does so: by \<open>mapLayersToContainersA_issues\<close> its issue
  list is, group by group and layer by layer, one issue for each layer that has all four
  coordinates and violates the container of its group, and nothing else. The second
  listing never compares a layer with a container. On the sample document the layer
  \<^verbatim>\<open>art\<close> of the design group \<^verbatim>\<open>BG\<close> starts five pixels above the container \<^verbatim>\<open>BG\<close>: the
  second listing reports no issue and a valid design, the first listing reports one
  issue.
\<close>

theorem mapLayersToContainersB_misses_violation:
  "matching (extractTemplateMetadataB ex_psd) ex_design
     = Some (ContainerDefinition ''container-0'' ''BG'' ''!!BG'' (Rect 0 0 200 100) (Rect 0 0 1 1))
   \<and> violates (ContainerDefinition ''container-0'' ''BG'' ''!!BG'' (Rect 0 0 200 100) (Rect 0 0 1 1)) ex_art
   \<and> mapLayersToContainersB ex_psd (extractTemplateMetadataB ex_psd) = DesignValidationReport True []
   \<and> length (issues (mapLayersToContainersA ex_psd (extractTemplateMetadataA ex_psd))) = 1"
  by code_simp

subsection \<open>C4: a target canvas without area\<close>

text \<open>
  Claim C4 says that \<^verbatim>\<open>compositePayloadToCanvas\<close> returns \<^verbatim>\<open>null\<close> for a target canvas
  whose width or height is not positive. The second listing does so, by its first
  statement \<^verbatim>\<open>if (w <= 0 || h <= 0) return null\<close>: \<open>compositeB_non_positive\<close>. The first
  listing has no such test: for a payload with a target of 0 by 0 it fills the background
  and returns the encoded snapshot.
\<close>

theorem compositePayloadToCanvasA_zero_canvas:
  "compositePayloadToCanvasA True (Some ex_zero) (Some ex_psd)
     = Inr (Some (DataURL ''image/jpeg'' (Some (9 / 10)) 0 0
                    [SetFillStyle (Color ''#0f172a''), FillRect 0 0 0 0]))
   \<and> compositePayloadToCanvasB True ex_zero ex_psd = Inr None"
  by code_simp

subsection \<open>C5: the template group in the serialized tree\<close>

text \<open>
  Claim C5 says that the tree \<^verbatim>\<open>getCleanLayerTree\<close> returns has no node made from a
  native node named \<^verbatim>\<open>!!TEMPLATE\<close>. A serialized node carries the name of its native node
  whenever that name is not empty, so this is to say that no serialized node is named
  \<^verbatim>\<open>!!TEMPLATE\<close>. The first listing filters at every level:
  \<open>getCleanLayerTreeA_no_template\<close>. The second listing has no filter: on the sample
  document it serializes the template group and the container under it.
\<close>

theorem getCleanLayerTreeB_keeps_template:
  "map sl_name (sl_nodes (getCleanLayerTreeB [ex_template, ex_design] ''root''))
     = [''!!TEMPLATE'', ''!!BG'', ''BG'', ''art'']
   \<and> map sl_name (sl_nodes (getCleanLayerTreeA [ex_template, ex_design] [])) = [''BG'', ''art'']"
  by code_simp

subsection \<open>C6: a layer whose pixel source cannot be drawn\<close>

text \<open>
  Claim C6 says that a drawing failure at one layer is swallowed there: the siblings are
  still painted and an encoded snapshot is returned. The first listing wraps
  \<^verbatim>\<open>drawImage\<close> in \<^verbatim>\<open>try\<close>/\<^verbatim>\<open>catch\<close> and never throws: \<open>compositeA_total\<close>. The second
  listing calls \<^verbatim>\<open>drawImage\<close> unprotected. On the sample with two pixel layers, the one at
  index 1 with an empty pixel source, the second listing ends with the exception of
  \<^verbatim>\<open>drawImage\<close> and paints nothing of the layer at index 0; the first listing goes on,
  paints the layer at index 0 and returns the snapshot.
\<close>

theorem compositePayloadToCanvasB_propagates_draw_failure:
  "compositePayloadToCanvasB True ex_payloadB ex_pixels = Inl InvalidStateError
   \<and> compositePayloadToCanvasA True (Some ex_payloadA) (Some ex_pixels)
       = Inr (Some (DataURL ''image/jpeg'' (Some (9 / 10)) 20 20
                      [SetFillStyle (Color ''#0f172a''), FillRect 0 0 20 20,
                       Save, SetGlobalAlpha 1, Translate 10 10, Restore,
                       Save, SetGlobalAlpha 1, Translate 5 5,
                       DrawImage (Canvas 10 10) (- 5) (- 5) 10 10, Restore]))"
  by code_simp

subsection \<open>C7: siblings are painted in reverse index order\<close>

text \<open>
  Claim C7. At every level of the payload tree the compositor paints the sibling layers
  in reverse index order: the last child first, index 0 last. For both listings:
  what \<^verbatim>\<open>compositePayloadToCanvas\<close> encodes is (after the background fill of the first
  listing) the calls of the payload's last top-level layer, then those of the layer
  before it, down to the calls of the payload's layer at index 0;
  the painting loop over a list of siblings is the left-to-right fold of the loop body
  over the reversed list (an exception of the body ends the fold); what the loop leaves
  on the surface is what was there before, followed by the calls of the last sibling,
  then those of the sibling before it, down to the calls of the sibling at index 0, each
  sibling painting what it would paint on a clean surface; and the loop body paints the
  children of a layer by the same fold over their reversed list. The calls made for
  index 0 are therefore the last ones on the surface, on top of all the others.
\<close>

theorem reverse_index_painting:
  "compositePayloadToCanvasA has2d (Some pl) (Some ps) =
     (if \<not> has2d then Inr None
      else case traceE (\<lambda>l. drawLayerA pl ps l []) (rev (p_layers pl)) of
             Inl e \<Rightarrow> Inl e
           | Inr cs \<Rightarrow>
               Inr (Some (DataURL ''image/jpeg'' (Some (9 / 10))
                            (reflectUnsignedLong (target_w pl) 300)
                            (reflectUnsignedLong (target_h pl) 150)
                            ([SetFillStyle (Color ''#0f172a''),
                              FillRect 0 0 (target_w pl) (target_h pl)] @ cs))))
   \<and> compositePayloadToCanvasA True (Some pl) (Some ps) =
     Inr (Some (DataURL ''image/jpeg'' (Some (9 / 10))
                  (reflectUnsignedLong (target_w pl) 300)
                  (reflectUnsignedLong (target_h pl) 150)
                  ([SetFillStyle (Color ''#0f172a''), FillRect 0 0 (target_w pl) (target_h pl)]
                   @ concat (map (paintedA pl ps) (rev (p_layers pl))))))
   \<and> compositePayloadToCanvasB has2d payload psd =
     (if target_w payload \<le> 0 \<or> target_h payload \<le> 0 then Inr None
      else if \<not> has2d then Inr None
      else case traceE (\<lambda>l. drawLayerB psd (orZeroR (target_x payload)) (orZeroR (target_y payload)) l [])
                       (rev (p_layers payload)) of
             Inl e \<Rightarrow> Inl e
           | Inr cs \<Rightarrow>
               Inr (Some (DataURL ''image/png'' None
                            (reflectUnsignedLong (target_w payload) 300)
                            (reflectUnsignedLong (target_h payload) 150) cs)))
   \<and> drawLayersA payload psd layers ctx = foldE (drawLayerA payload psd) (rev layers) ctx
   \<and> drawLayersB psd tx ty layers ctx = foldE (drawLayerB psd tx ty) (rev layers) ctx
   \<and> drawLayersA payload psd layers ctx
       = after ctx (traceE (\<lambda>l. drawLayerA payload psd l []) (rev layers))
   \<and> drawLayersB psd tx ty layers ctx
       = after ctx (traceE (\<lambda>l. drawLayerB psd tx ty l []) (rev layers))
   \<and> drawLayerA payload psd layer ctx =
       (if culled (target_w payload) (target_h payload) layer then Inr ctx
        else if \<not> tl_isVisible layer then Inr ctx
        else
          (case (if tl_type layer = KGroup \<and> tl_children layer \<noteq> None
                 then foldE (drawLayerA payload psd) (rev (the (tl_children layer))) (ctx @ [Save])
                 else if tl_type layer = KGenerative
                 then Inr (generativeA payload layer (ctx @ [Save]))
                 else pixelA psd layer (ctx @ [Save])) of
             Inl e \<Rightarrow> Inl e
           | Inr ctx' \<Rightarrow> Inr (ctx' @ [Restore])))
   \<and> drawLayerB psd tx ty layer ctx =
       (if \<not> tl_isVisible layer then Inr ctx
        else
          (case (if tl_type layer = KGenerative then Inr (generativeB tx ty layer ctx)
                 else if tl_type layer \<noteq> KGroup then pixelB psd tx ty layer ctx
                 else Inr ctx) of
             Inl e \<Rightarrow> Inl e
           | Inr ctx' \<Rightarrow>
               (case tl_children layer of
                  None \<Rightarrow> Inr ctx'
                | Some kids \<Rightarrow> foldE (drawLayerB psd tx ty) (rev kids) ctx')))"
proof (intro conjI)
  show "compositePayloadToCanvasA has2d (Some pl) (Some ps) =
     (if \<not> has2d then Inr None
      else case traceE (\<lambda>l. drawLayerA pl ps l []) (rev (p_layers pl)) of
             Inl e \<Rightarrow> Inl e
           | Inr cs \<Rightarrow>
               Inr (Some (DataURL ''image/jpeg'' (Some (9 / 10))
                            (reflectUnsignedLong (target_w pl) 300)
                            (reflectUnsignedLong (target_h pl) 150)
                            ([SetFillStyle (Color ''#0f172a''),
                              FillRect 0 0 (target_w pl) (target_h pl)] @ cs))))"
    by (rule compositePayloadToCanvasA_trace)
  show "compositePayloadToCanvasA True (Some pl) (Some ps) =
     Inr (Some (DataURL ''image/jpeg'' (Some (9 / 10))
                  (reflectUnsignedLong (target_w pl) 300)
                  (reflectUnsignedLong (target_h pl) 150)
                  ([SetFillStyle (Color ''#0f172a''), FillRect 0 0 (target_w pl) (target_h pl)]
                   @ concat (map (paintedA pl ps) (rev (p_layers pl))))))"
    by (rule compositePayloadToCanvasA_paints_all)
  show "compositePayloadToCanvasB has2d payload psd =
     (if target_w payload \<le> 0 \<or> target_h payload \<le> 0 then Inr None
      else if \<not> has2d then Inr None
      else case traceE (\<lambda>l. drawLayerB psd (orZeroR (target_x payload)) (orZeroR (target_y payload)) l [])
                       (rev (p_layers payload)) of
             Inl e \<Rightarrow> Inl e
           | Inr cs \<Rightarrow>
               Inr (Some (DataURL ''image/png'' None
                            (reflectUnsignedLong (target_w payload) 300)
                            (reflectUnsignedLong (target_h payload) 150) cs)))"
    by (rule compositePayloadToCanvasB_trace)
  show "drawLayersA payload psd layers ctx = foldE (drawLayerA payload psd) (rev layers) ctx"
    by (rule drawLayersA_fold)
  show "drawLayersB psd tx ty layers ctx = foldE (drawLayerB psd tx ty) (rev layers) ctx"
    by (rule drawLayersB_fold)
  show "drawLayersA payload psd layers ctx
       = after ctx (traceE (\<lambda>l. drawLayerA payload psd l []) (rev layers))"
    by (rule drawLayersA_trace)
  show "drawLayersB psd tx ty layers ctx
       = after ctx (traceE (\<lambda>l. drawLayerB psd tx ty l []) (rev layers))"
    by (rule drawLayersB_trace)
qed (rule drawLayerA_unfold drawLayerB_unfold)+

subsection \<open>C8: the canvas dimensions\<close>




subsection \<open>C9: one container per template child\<close>

text \<open>
  Claim C9 says that every direct child of the template group that is missing
  bounding-box fields yields one container with zero-area bounds, so that the number of
  containers is the number of those children. The count is right. The bounds are
  computed with 0 in the place of each missing field, which gives an area of zero when
  all four fields are missing, or both fields of one axis, and not otherwise: in the
  second sample document the template child without top and left, with bottom and right
  at 50, gets the box (0, 0, 50, 50) of area 2500, in both listings.
\<close>

theorem partial_box_counterexample:
  "psd_children ex_psd2 = Some [ex_template2, ex_design]
   \<and> l_name ex_template2 = Some ''!!TEMPLATE''
   \<and> l_children ex_template2 = Some [ex_container, ex_partial]
   \<and> l_top ex_partial = None \<and> l_left ex_partial = None
   \<and> map c_bounds (containers (extractTemplateMetadataA ex_psd2)) = [Rect 0 0 200 100, Rect 0 0 50 50]
   \<and> map c_bounds (containers (extractTemplateMetadataB ex_psd2)) = [Rect 0 0 200 100, Rect 0 0 50 50]
   \<and> map (\<lambda>c. rect_w (c_bounds c) * rect_h (c_bounds c)) (containers (extractTemplateMetadataA ex_psd2))
       = [20000, 2500]
   \<and> map (\<lambda>c. rect_w (c_bounds c) * rect_h (c_bounds c)) (containers (extractTemplateMetadataB ex_psd2))
       = [20000, 2500]"
  by code_simp

text \<open>
  Claim C9, amended. In both listings the extractor emits exactly one container for
  every direct child of the template group, in order and skipping none, whether or not
  the child has bounding-box fields: when the first top-level node named
  \<^verbatim>\<open>!!TEMPLATE\<close> has the child list \<open>kids\<close>, the number of containers is the length of
  \<open>kids\<close>, and the bounds of the containers are the boxes of the children one by one,
  each missing field read as 0. A document without top-level nodes, without a template
  group, or whose template group has no child list gets no container. A child with no
  bounding-box field gets the bounds (0, 0, 0, 0), in pixels and normalized; a child
  without left and right gets the width 0, a child without top and bottom the height 0.
\<close>

theorem container_per_template_child:
  "(psd_children psd = Some cs \<and> find (\<lambda>c. l_name c = Some ''!!TEMPLATE'') cs = Some g
      \<and> l_children g = Some kids \<longrightarrow>
        length (containers (extractTemplateMetadataA psd)) = length kids
        \<and> length (containers (extractTemplateMetadataB psd)) = length kids
        \<and> map c_bounds (containers (extractTemplateMetadataA psd)) = map (\<lambda>k. Rect (case l_left k of None \<Rightarrow> 0 | Some v \<Rightarrow> v)
                        (case l_top k of None \<Rightarrow> 0 | Some v \<Rightarrow> v)
                        ((case l_right k of None \<Rightarrow> 0 | Some v \<Rightarrow> v)
                          - (case l_left k of None \<Rightarrow> 0 | Some v \<Rightarrow> v))
                        ((case l_bottom k of None \<Rightarrow> 0 | Some v \<Rightarrow> v)
                          - (case l_top k of None \<Rightarrow> 0 | Some v \<Rightarrow> v))) kids
        \<and> map c_bounds (containers (extractTemplateMetadataB psd)) = map (\<lambda>k. Rect (case l_left k of None \<Rightarrow> 0 | Some v \<Rightarrow> v)
                        (case l_top k of None \<Rightarrow> 0 | Some v \<Rightarrow> v)
                        ((case l_right k of None \<Rightarrow> 0 | Some v \<Rightarrow> v)
                          - (case l_left k of None \<Rightarrow> 0 | Some v \<Rightarrow> v))
                        ((case l_bottom k of None \<Rightarrow> 0 | Some v \<Rightarrow> v)
                          - (case l_top k of None \<Rightarrow> 0 | Some v \<Rightarrow> v))) kids)
   \<and> (psd_children psd = None
        \<or> (\<exists>cs. psd_children psd = Some cs \<and> find (\<lambda>c. l_name c = Some ''!!TEMPLATE'') cs = None)
        \<or> (\<exists>cs g. psd_children psd = Some cs
               \<and> find (\<lambda>c. l_name c = Some ''!!TEMPLATE'') cs = Some g \<and> l_children g = None)
        \<longrightarrow> containers (extractTemplateMetadataA psd) = []
            \<and> containers (extractTemplateMetadataB psd) = [])
   \<and> c_bounds (containerA (Layer nm None None None None hid opa cnv ks) i cw ch) = Rect 0 0 0 0
   \<and> c_bounds (containerB (Layer nm None None None None hid opa cnv ks) i cw ch) = Rect 0 0 0 0
   \<and> c_normalized (containerA (Layer nm None None None None hid opa cnv ks) i cw ch) = Rect 0 0 0 0
   \<and> c_normalized (containerB (Layer nm None None None None hid opa cnv ks) i cw ch) = Rect 0 0 0 0
   \<and> rect_w (c_bounds (containerA (Layer nm tp None bt None hid opa cnv ks) i cw ch)) = 0
   \<and> rect_w (c_bounds (containerB (Layer nm tp None bt None hid opa cnv ks) i cw ch)) = 0
   \<and> rect_h (c_bounds (containerA (Layer nm None lf None rt hid opa cnv ks) i cw ch)) = 0
   \<and> rect_h (c_bounds (containerB (Layer nm None lf None rt hid opa cnv ks) i cw ch)) = 0"
proof -
  have pb: "pixelBounds = (\<lambda>k. Rect (case l_left k of None \<Rightarrow> 0 | Some v \<Rightarrow> v)
                        (case l_top k of None \<Rightarrow> 0 | Some v \<Rightarrow> v)
                        ((case l_right k of None \<Rightarrow> 0 | Some v \<Rightarrow> v)
                          - (case l_left k of None \<Rightarrow> 0 | Some v \<Rightarrow> v))
                        ((case l_bottom k of None \<Rightarrow> 0 | Some v \<Rightarrow> v)
                          - (case l_top k of None \<Rightarrow> 0 | Some v \<Rightarrow> v)))"
    by (rule ext) (simp add: pixelBounds_def orZero_def Let_def)
  have doc: "length (containers (extractTemplateMetadataA psd)) = length kids
        \<and> length (containers (extractTemplateMetadataB psd)) = length kids
        \<and> map c_bounds (containers (extractTemplateMetadataA psd)) = map (\<lambda>k. Rect (case l_left k of None \<Rightarrow> 0 | Some v \<Rightarrow> v)
                        (case l_top k of None \<Rightarrow> 0 | Some v \<Rightarrow> v)
                        ((case l_right k of None \<Rightarrow> 0 | Some v \<Rightarrow> v)
                          - (case l_left k of None \<Rightarrow> 0 | Some v \<Rightarrow> v))
                        ((case l_bottom k of None \<Rightarrow> 0 | Some v \<Rightarrow> v)
                          - (case l_top k of None \<Rightarrow> 0 | Some v \<Rightarrow> v))) kids
        \<and> map c_bounds (containers (extractTemplateMetadataB psd)) = map (\<lambda>k. Rect (case l_left k of None \<Rightarrow> 0 | Some v \<Rightarrow> v)
                        (case l_top k of None \<Rightarrow> 0 | Some v \<Rightarrow> v)
                        ((case l_right k of None \<Rightarrow> 0 | Some v \<Rightarrow> v)
                          - (case l_left k of None \<Rightarrow> 0 | Some v \<Rightarrow> v))
                        ((case l_bottom k of None \<Rightarrow> 0 | Some v \<Rightarrow> v)
                          - (case l_top k of None \<Rightarrow> 0 | Some v \<Rightarrow> v))) kids"
    if "psd_children psd = Some cs" "find (\<lambda>c. l_name c = Some ''!!TEMPLATE'') cs = Some g"
       "l_children g = Some kids"
    using templateChildren_document [OF that]
    by (simp add: extractTemplateMetadataA_def extractTemplateMetadataB_def Let_def
        length_eachContainerA length_eachContainerB bounds_eachContainerA bounds_eachContainerB pb)
  have none: "containers (extractTemplateMetadataA psd) = []
            \<and> containers (extractTemplateMetadataB psd) = []"
    if "psd_children psd = None
        \<or> (\<exists>cs. psd_children psd = Some cs \<and> find (\<lambda>c. l_name c = Some ''!!TEMPLATE'') cs = None)
        \<or> (\<exists>cs g. psd_children psd = Some cs
               \<and> find (\<lambda>c. l_name c = Some ''!!TEMPLATE'') cs = Some g \<and> l_children g = None)"
  proof -
    from that have "templateChildren psd = []"
      by (auto simp: templateChildren_def templateGroup_def)
    then show ?thesis
      by (simp add: extractTemplateMetadataA_def extractTemplateMetadataB_def Let_def)
  qed
  have z: "c_bounds (containerA (Layer nm None None None None hid opa cnv ks) i cw ch) = Rect 0 0 0 0"
    "c_bounds (containerB (Layer nm None None None None hid opa cnv ks) i cw ch) = Rect 0 0 0 0"
    "c_normalized (containerA (Layer nm None None None None hid opa cnv ks) i cw ch) = Rect 0 0 0 0"
    "c_normalized (containerB (Layer nm None None None None hid opa cnv ks) i cw ch) = Rect 0 0 0 0"
    "rect_w (c_bounds (containerA (Layer nm tp None bt None hid opa cnv ks) i cw ch)) = 0"
    "rect_w (c_bounds (containerB (Layer nm tp None bt None hid opa cnv ks) i cw ch)) = 0"
    "rect_h (c_bounds (containerA (Layer nm None lf None rt hid opa cnv ks) i cw ch)) = 0"
    "rect_h (c_bounds (containerB (Layer nm None lf None rt hid opa cnv ks) i cw ch)) = 0"
    by (simp_all add: containerA_def containerB_def Let_def pixelBounds_def normalizedBounds_def
        orZero_def)
  from doc none z show ?thesis by blast
qed

theorem container_per_template_child_witness:
  "psd_children ex_psd2 = Some [ex_template2, ex_design]
   \<and> find (\<lambda>c. l_name c = Some ''!!TEMPLATE'') [ex_template2, ex_design] = Some ex_template2
   \<and> l_children ex_template2 = Some [ex_container, ex_partial]
   \<and> length (containers (extractTemplateMetadataA ex_psd2)) = 2
   \<and> length (containers (extractTemplateMetadataB ex_psd2)) = 2
   \<and> map c_bounds (containers (extractTemplateMetadataA ex_psd2)) = [Rect 0 0 200 100, Rect 0 0 50 50]
   \<and> map c_bounds (containers (extractTemplateMetadataB ex_psd2)) = [Rect 0 0 200 100, Rect 0 0 50 50]"
proof -
  have a: "psd_children ex_psd2 = Some [ex_template2, ex_design]" by (simp add: ex_psd2_def)
  have b: "find (\<lambda>c. l_name c = Some ''!!TEMPLATE'') [ex_template2, ex_design] = Some ex_template2"
    by (simp add: ex_template2_def)
  have c: "l_children ex_template2 = Some [ex_container, ex_partial]" by (simp add: ex_template2_def)
  have bx: "map (\<lambda>k. Rect (case l_left k of None \<Rightarrow> 0 | Some v \<Rightarrow> v)
                        (case l_top k of None \<Rightarrow> 0 | Some v \<Rightarrow> v)
                        ((case l_right k of None \<Rightarrow> 0 | Some v \<Rightarrow> v)
                          - (case l_left k of None \<Rightarrow> 0 | Some v \<Rightarrow> v))
                        ((case l_bottom k of None \<Rightarrow> 0 | Some v \<Rightarrow> v)
                          - (case l_top k of None \<Rightarrow> 0 | Some v \<Rightarrow> v))) [ex_container, ex_partial] = [Rect 0 0 200 100, Rect 0 0 50 50]"
    by (simp add: ex_container_def ex_partial_def)
  from container_per_template_child [where psd = ex_psd2 and cs = "[ex_template2, ex_design]"
      and g = ex_template2 and kids = "[ex_container, ex_partial]"] a b c
  have "length (containers (extractTemplateMetadataA ex_psd2)) = length [ex_container, ex_partial]
        \<and> length (containers (extractTemplateMetadataB ex_psd2)) = length [ex_container, ex_partial]
        \<and> map c_bounds (containers (extractTemplateMetadataA ex_psd2)) = map (\<lambda>k. Rect (case l_left k of None \<Rightarrow> 0 | Some v \<Rightarrow> v)
                        (case l_top k of None \<Rightarrow> 0 | Some v \<Rightarrow> v)
                        ((case l_right k of None \<Rightarrow> 0 | Some v \<Rightarrow> v)
                          - (case l_left k of None \<Rightarrow> 0 | Some v \<Rightarrow> v))
                        ((case l_bottom k of None \<Rightarrow> 0 | Some v \<Rightarrow> v)
                          - (case l_top k of None \<Rightarrow> 0 | Some v \<Rightarrow> v))) [ex_container, ex_partial]
        \<and> map c_bounds (containers (extractTemplateMetadataB ex_psd2)) = map (\<lambda>k. Rect (case l_left k of None \<Rightarrow> 0 | Some v \<Rightarrow> v)
                        (case l_top k of None \<Rightarrow> 0 | Some v \<Rightarrow> v)
                        ((case l_right k of None \<Rightarrow> 0 | Some v \<Rightarrow> v)
                          - (case l_left k of None \<Rightarrow> 0 | Some v \<Rightarrow> v))
                        ((case l_bottom k of None \<Rightarrow> 0 | Some v \<Rightarrow> v)
                          - (case l_top k of None \<Rightarrow> 0 | Some v \<Rightarrow> v))) [ex_container, ex_partial]"
    by blast
  with a b c bx show ?thesis by simp
qed

subsection \<open>C10: the two extractors agree up to ids and default names\<close>

text \<open>
  Claim C10. The two listings of \<^verbatim>\<open>extractTemplateMetadata\<close> compute the same canvas
  dimensions, the same pixel bounds and the same normalized bounds for every document.
  They compute the same name and original name for every template child that has a
  non-empty name, whatever its siblings are: position by position the containers of the
  two listings are made from the same child, and their names agree unless the first
  listing's original name is its default. They differ in the id (the second listing's
  id is \<^verbatim>\<open>container-<index>\<close>, the first appends a dash and the cleaned name with white
  space replaced by underscores) and in the name given to a child without a name
  (\<^verbatim>\<open>Untitled\<close> in the first listing, \<^verbatim>\<open>Container <index>\<close> in the second).
\<close>

theorem extractors_agree:
  "canvas_width (extractTemplateMetadataA psd) = canvas_width (extractTemplateMetadataB psd)
   \<and> canvas_height (extractTemplateMetadataA psd) = canvas_height (extractTemplateMetadataB psd)
   \<and> map c_bounds (containers (extractTemplateMetadataA psd))
       = map c_bounds (containers (extractTemplateMetadataB psd))
   \<and> map c_normalized (containers (extractTemplateMetadataA psd))
       = map c_normalized (containers (extractTemplateMetadataB psd))
   \<and> ((\<forall>c \<in> set (templateChildren psd). l_name c \<noteq> None \<and> l_name c \<noteq> Some []) \<longrightarrow>
        map (\<lambda>c. (c_name c, c_originalName c)) (containers (extractTemplateMetadataA psd))
        = map (\<lambda>c. (c_name c, c_originalName c)) (containers (extractTemplateMetadataB psd)))
   \<and> c_id (containerB child i cw ch) = ''container-'' @ toString i
   \<and> c_id (containerA child i cw ch) = c_id (containerB child i cw ch) @ ''-'' @ underscored (c_name (containerA child i cw ch))
   \<and> c_originalName (containerA (Layer None tp lf bt rt hid opa cnv kids) i cw ch) = ''Untitled''
   \<and> c_originalName (containerB (Layer None tp lf bt rt hid opa cnv kids) i cw ch) = ''Container '' @ toString i
   \<and> c_originalName (containerA (Layer (Some []) tp lf bt rt hid opa cnv kids) i cw ch) = ''Untitled''
   \<and> c_originalName (containerB (Layer (Some []) tp lf bt rt hid opa cnv kids) i cw ch) = ''Container '' @ toString i
   \<and> c_name (containerA (Layer (Some (c # s)) tp lf bt rt hid opa cnv kids) i cw ch)
       = c_name (containerB (Layer (Some (c # s)) tp lf bt rt hid opa cnv kids) i cw ch)
   \<and> c_originalName (containerA (Layer (Some (c # s)) tp lf bt rt hid opa cnv kids) i cw ch)
       = c_originalName (containerB (Layer (Some (c # s)) tp lf bt rt hid opa cnv kids) i cw ch)
   \<and> list_all2 (\<lambda>a b. (c_name a = c_name b \<and> c_originalName a = c_originalName b)
                         \<or> c_originalName a = ''Untitled'')
        (containers (extractTemplateMetadataA psd)) (containers (extractTemplateMetadataB psd))
   \<and> (psd_children psd = Some ds \<and> find (\<lambda>c. l_name c = Some ''!!TEMPLATE'') ds = Some g
        \<and> l_children g = Some ks \<longrightarrow>
        (\<forall>j < length ks.
           containers (extractTemplateMetadataA psd) ! j
             = containerA (ks ! j) j (canvas_width (extractTemplateMetadataA psd))
                          (canvas_height (extractTemplateMetadataA psd))
           \<and> containers (extractTemplateMetadataB psd) ! j
             = containerB (ks ! j) j (canvas_width (extractTemplateMetadataB psd))
                          (canvas_height (extractTemplateMetadataB psd))
           \<and> (l_name (ks ! j) \<noteq> None \<and> l_name (ks ! j) \<noteq> Some [] \<longrightarrow>
                c_name (containers (extractTemplateMetadataA psd) ! j)
                  = c_name (containers (extractTemplateMetadataB psd) ! j)
                \<and> c_originalName (containers (extractTemplateMetadataA psd) ! j)
                  = c_originalName (containers (extractTemplateMetadataB psd) ! j))))"
proof -
  have first: "canvas_width (extractTemplateMetadataA psd) = canvas_width (extractTemplateMetadataB psd)
   \<and> canvas_height (extractTemplateMetadataA psd) = canvas_height (extractTemplateMetadataB psd)
   \<and> map c_bounds (containers (extractTemplateMetadataA psd))
       = map c_bounds (containers (extractTemplateMetadataB psd))
   \<and> map c_normalized (containers (extractTemplateMetadataA psd))
       = map c_normalized (containers (extractTemplateMetadataB psd))
   \<and> ((\<forall>c \<in> set (templateChildren psd). l_name c \<noteq> None \<and> l_name c \<noteq> Some []) \<longrightarrow>
        map (\<lambda>c. (c_name c, c_originalName c)) (containers (extractTemplateMetadataA psd))
        = map (\<lambda>c. (c_name c, c_originalName c)) (containers (extractTemplateMetadataB psd)))
   \<and> c_id (containerB child i cw ch) = ''container-'' @ toString i
   \<and> c_id (containerA child i cw ch) = c_id (containerB child i cw ch) @ ''-'' @ underscored (c_name (containerA child i cw ch))
   \<and> c_originalName (containerA (Layer None tp lf bt rt hid opa cnv kids) i cw ch) = ''Untitled''
   \<and> c_originalName (containerB (Layer None tp lf bt rt hid opa cnv kids) i cw ch) = ''Container '' @ toString i
   \<and> c_originalName (containerA (Layer (Some []) tp lf bt rt hid opa cnv kids) i cw ch) = ''Untitled''
   \<and> c_originalName (containerB (Layer (Some []) tp lf bt rt hid opa cnv kids) i cw ch) = ''Container '' @ toString i"
    using named_eachContainer [of "templateChildren psd" 0 "orOne (psd_width psd)" "orOne (psd_height psd)"]
    by (simp add: extractTemplateMetadataA_def extractTemplateMetadataB_def Let_def
        bounds_eachContainerA bounds_eachContainerB normalized_eachContainerA normalized_eachContainerB
        containerA_def containerB_def orElse_def)
  have named: "c_name (containerA (Layer (Some (c # s)) tp lf bt rt hid opa cnv kids) i cw ch)
       = c_name (containerB (Layer (Some (c # s)) tp lf bt rt hid opa cnv kids) i cw ch)"
    "c_originalName (containerA (Layer (Some (c # s)) tp lf bt rt hid opa cnv kids) i cw ch)
       = c_originalName (containerB (Layer (Some (c # s)) tp lf bt rt hid opa cnv kids) i cw ch)"
    by (simp_all add: containerA_def containerB_def Let_def orElse_def)
  have la: "list_all2 (\<lambda>a b. (c_name a = c_name b \<and> c_originalName a = c_originalName b)
                         \<or> c_originalName a = ''Untitled'')
        (containers (extractTemplateMetadataA psd)) (containers (extractTemplateMetadataB psd))"
    by (simp add: extractTemplateMetadataA_def extractTemplateMetadataB_def Let_def
        names_agree_or_default)
  have doc: "containers (extractTemplateMetadataA psd) ! j
             = containerA (ks ! j) j (canvas_width (extractTemplateMetadataA psd))
                          (canvas_height (extractTemplateMetadataA psd))
           \<and> containers (extractTemplateMetadataB psd) ! j
             = containerB (ks ! j) j (canvas_width (extractTemplateMetadataB psd))
                          (canvas_height (extractTemplateMetadataB psd))
           \<and> (l_name (ks ! j) \<noteq> None \<and> l_name (ks ! j) \<noteq> Some [] \<longrightarrow>
                c_name (containers (extractTemplateMetadataA psd) ! j)
                  = c_name (containers (extractTemplateMetadataB psd) ! j)
                \<and> c_originalName (containers (extractTemplateMetadataA psd) ! j)
                  = c_originalName (containers (extractTemplateMetadataB psd) ! j))"
    if h: "psd_children psd = Some ds" "find (\<lambda>c. l_name c = Some ''!!TEMPLATE'') ds = Some g"
       "l_children g = Some ks" and j: "j < length ks" for j
  proof -
    have tc: "templateChildren psd = ks" by (rule templateChildren_document [OF h])
    have a: "containers (extractTemplateMetadataA psd) ! j
             = containerA (ks ! j) j (canvas_width (extractTemplateMetadataA psd))
                          (canvas_height (extractTemplateMetadataA psd))"
      using nth_eachContainerA [OF j, of 0]
      by (simp add: extractTemplateMetadataA_def Let_def tc)
    have b: "containers (extractTemplateMetadataB psd) ! j
             = containerB (ks ! j) j (canvas_width (extractTemplateMetadataB psd))
                          (canvas_height (extractTemplateMetadataB psd))"
      using nth_eachContainerB [OF j, of 0]
      by (simp add: extractTemplateMetadataB_def Let_def tc)
    have n: "c_name (containerA k j x y) = c_name (containerB k j x' y')
             \<and> c_originalName (containerA k j x y) = c_originalName (containerB k j x' y')"
      if "l_name k \<noteq> None \<and> l_name k \<noteq> Some []" for k x y x' y'
      using that by (auto simp: containerA_def containerB_def Let_def orElse_def)
    show ?thesis unfolding a b using n [of "ks ! j"] by blast
  qed
  from first named la doc show ?thesis by blast
qed

theorem extractors_agree_witness:
  "psd_children ex_psd2 = Some [ex_template2, ex_design]
   \<and> find (\<lambda>c. l_name c = Some ''!!TEMPLATE'') [ex_template2, ex_design] = Some ex_template2
   \<and> l_children ex_template2 = Some [ex_container, ex_partial]
   \<and> l_name ex_container = Some ''!!BG''
   \<and> l_name ex_partial = None
   \<and> c_name (containers (extractTemplateMetadataA ex_psd2) ! 0)
       = c_name (containers (extractTemplateMetadataB ex_psd2) ! 0)
   \<and> c_originalName (containers (extractTemplateMetadataA ex_psd2) ! 0)
       = c_originalName (containers (extractTemplateMetadataB ex_psd2) ! 0)
   \<and> map (\<lambda>c. (c_name c, c_originalName c)) (containers (extractTemplateMetadataA ex_psd2))
        = [(''BG'', ''!!BG''), (''Untitled'', ''Untitled'')]
   \<and> map (\<lambda>c. (c_name c, c_originalName c)) (containers (extractTemplateMetadataB ex_psd2))
        = [(''BG'', ''!!BG''), (''Container 1'', ''Container 1'')]"
proof -
  have a: "psd_children ex_psd2 = Some [ex_template2, ex_design]" by (simp add: ex_psd2_def)
  have b: "find (\<lambda>c. l_name c = Some ''!!TEMPLATE'') [ex_template2, ex_design] = Some ex_template2"
    by (simp add: ex_template2_def)
  have c: "l_children ex_template2 = Some [ex_container, ex_partial]" by (simp add: ex_template2_def)
  have n0: "l_name ex_container = Some ''!!BG''" by (simp add: ex_container_def)
  have n1: "l_name ex_partial = None" by (simp add: ex_partial_def)
  have va: "map (\<lambda>c. (c_name c, c_originalName c)) (containers (extractTemplateMetadataA ex_psd2))
        = [(''BG'', ''!!BG''), (''Untitled'', ''Untitled'')]" by code_simp
  have vb: "map (\<lambda>c. (c_name c, c_originalName c)) (containers (extractTemplateMetadataB ex_psd2))
        = [(''BG'', ''!!BG''), (''Container 1'', ''Container 1'')]" by code_simp
  have j: "(0::nat) < length [ex_container, ex_partial]" by simp
  have nm: "l_name ([ex_container, ex_partial] ! 0) \<noteq> None
            \<and> l_name ([ex_container, ex_partial] ! 0) \<noteq> Some []" by (simp add: n0)
  from extractors_agree [where psd = ex_psd2 and ds = "[ex_template2, ex_design]"
      and g = ex_template2 and ks = "[ex_container, ex_partial]"] a b c
  have "\<forall>j < length [ex_container, ex_partial].
           l_name ([ex_container, ex_partial] ! j) \<noteq> None
           \<and> l_name ([ex_container, ex_partial] ! j) \<noteq> Some [] \<longrightarrow>
             c_name (containers (extractTemplateMetadataA ex_psd2) ! j)
               = c_name (containers (extractTemplateMetadataB ex_psd2) ! j)
             \<and> c_originalName (containers (extractTemplateMetadataA ex_psd2) ! j)
               = c_originalName (containers (extractTemplateMetadataB ex_psd2) ! j)"
    by blast
  with j nm have "c_name (containers (extractTemplateMetadataA ex_psd2) ! 0)
               = c_name (containers (extractTemplateMetadataB ex_psd2) ! 0)
             \<and> c_originalName (containers (extractTemplateMetadataA ex_psd2) ! 0)
               = c_originalName (containers (extractTemplateMetadataB ex_psd2) ! 0)"
    by blast
  with a b c n0 n1 va vb show ?thesis by blast
qed

end
